theory Spec2Isabelle
  imports Main
begin

section \<open>Python values, exceptions and the recorded effects\<close>

text \<open>
  The module \<^verbatim>\<open>ssh_reverse.py\<close> is dynamically typed: the \<^verbatim>\<open>bind_port\<close> argument of the
  constructor may be \<^verbatim>\<open>None\<close>, an integer, a string, a list or a tuple, and the list built
  in \<^verbatim>\<open>get_host_port\<close> mixes strings with an integer. \<open>pyval\<close> holds the values that
  occur.
\<close>

datatype pyval = PNone | PInt int | PStr string | PList "pyval list" | PTuple "pyval list"

text \<open>
  Every \<^verbatim>\<open>raise\<close> of the module, and every exception of a library call that the module lets
  through, is a value of \<open>error\<close>. \<open>PortsExhausted mn mx\<close> is the
  \<^verbatim>\<open>Exception("forward port %d ~ %d already used!")\<close> of the port binder.
\<close>

datatype error =
    AssertionError
  | TypeError
  | ValueError
  | IndexError
  | AttributeError
  | ConnectError
  | SocketError
  | TransportError
  | PortsExhausted int int
  | KeyboardInterrupt

text \<open>
  Calls into paramiko, the socket module and the threading module are recorded in the order in
  which they are issued. Clients (and their transports) are named by the number they were
  created with.
\<close>

datatype event =
    NewClient nat
  | Connect nat pyval int
  | SocketConnect pyval int
  | SocketClose
  | RequestPortForward nat pyval
  | ThreadStart nat
  | TransportClose nat
  | ClientClose nat
  | SpawnRelay nat
  | FailureCallback
  | ChannelSend string
  | SocketSend string
  | ChannelClose

text \<open>The answer of \<^verbatim>\<open>transport.request_port_forward\<close>: success, \<^verbatim>\<open>SSHException\<close>, or any
  other exception.\<close>

datatype bind_result = Accepted | Rejected | Failed

text \<open>What \<^verbatim>\<open>thr.start()\<close> and the wait that follows it do inside the \<^verbatim>\<open>try\<close> block of
  \<^verbatim>\<open>create\<close>.\<close>

datatype thread_outcome = Started | StartFails | Interrupted

text \<open>One poll of \<^verbatim>\<open>transport.accept(1000)\<close> in the acceptor: a channel, a timeout (with what
  \<^verbatim>\<open>transport.is_alive()\<close> then answers), or an exception.\<close>

datatype accept_result = Channel nat | Timeout bool | AcceptRaises

section \<open>The manager object\<close>

text \<open>
  The attributes of an \<^verbatim>\<open>SSHReverse\<close> object (leading underscores dropped), followed by the
  two components that belong to the surroundings: the recorded effects and the number of the
  next client object.
\<close>

record state =
  server :: string
  remote :: string
  bind_port_min :: pyval
  bind_port_max :: pyval
  bind_port_try :: pyval
  bind_port_now :: pyval
  username :: "string option"
  password :: "string option"
  key_file :: "string option"
  look_for_keys :: "bool option"
  thread :: "nat option"
  stop :: bool
  client_list :: "nat list"
  client_curr :: int
  client_file :: "pyval list"
  client_extra :: "((pyval \<times> int) \<times> string \<times> (pyval \<times> int)) list"
  events :: "event list"
  next_client :: nat

text \<open>The behaviour of the surroundings during one call of \<^verbatim>\<open>create\<close>.\<close>

record env =
  os_user :: string
  connect_fails :: bool
  remote_connectable :: bool
  request_port_forward :: "pyval \<Rightarrow> bind_result"
  thread_outcome :: thread_outcome
  accepts :: "accept_result list"

section \<open>Helpers for Python's built-ins\<close>

definition and_then :: "error + 'a \<Rightarrow> ('a \<Rightarrow> error + 'b) \<Rightarrow> error + 'b" where
  "and_then r f = (case r of Inl e \<Rightarrow> Inl e | Inr x \<Rightarrow> f x)"

text \<open>\<^verbatim>\<open>xs[i]\<close>: a negative index counts from the end, an index out of range raises.\<close>

definition py_index :: "'a list \<Rightarrow> int \<Rightarrow> error + 'a" where
  "py_index xs i =
     (if 0 \<le> i \<and> i < int (length xs) then Inr (xs ! nat i)
      else if i < 0 \<and> - int (length xs) \<le> i then Inr (xs ! nat (int (length xs) + i))
      else Inl IndexError)"

fun py_len :: "pyval \<Rightarrow> error + nat" where
  "py_len (PStr s) = Inr (length s)"
| "py_len (PList vs) = Inr (length vs)"
| "py_len (PTuple vs) = Inr (length vs)"
| "py_len PNone = Inl TypeError"
| "py_len (PInt n) = Inl TypeError"

fun py_getitem :: "pyval \<Rightarrow> int \<Rightarrow> error + pyval" where
  "py_getitem (PList vs) i = py_index vs i"
| "py_getitem (PTuple vs) i = py_index vs i"
| "py_getitem (PStr s) i = and_then (py_index s i) (\<lambda>c. Inr (PStr [c]))"
| "py_getitem PNone i = Inl TypeError"
| "py_getitem (PInt n) i = Inl TypeError"

text \<open>\<^verbatim>\<open>s.split(sep, 1)\<close> for a one-character separator.\<close>

definition split1 :: "char \<Rightarrow> string \<Rightarrow> string list" where
  "split1 sep s =
     (if sep \<in> set s
      then [takeWhile (\<lambda>c. c \<noteq> sep) s, tl (dropWhile (\<lambda>c. c \<noteq> sep) s)]
      else [s])"

text \<open>
  \<^verbatim>\<open>int(x)\<close>. On an integer it is the identity. On a string the built-in strips the
  surrounding white space, reads an optional sign and then needs decimal digits only; anything
  else raises \<^verbatim>\<open>ValueError\<close>. On \<^verbatim>\<open>None\<close>, a list and a tuple it raises \<^verbatim>\<open>TypeError\<close>.
\<close>

definition is_space :: "char \<Rightarrow> bool" where
  "is_space c = (c \<in> set [CHR '' '', CHR 0x09, CHR 0x0A, CHR 0x0B, CHR 0x0C, CHR 0x0D])"

definition digit_val :: "char \<Rightarrow> int option" where
  "digit_val c = map_of (zip ''0123456789'' [0, 1, 2, 3, 4, 5, 6, 7, 8, 9]) c"

fun digits_val :: "int \<Rightarrow> string \<Rightarrow> int option" where
  "digits_val acc [] = Some acc"
| "digits_val acc (c # cs) =
     (case digit_val c of None \<Rightarrow> None | Some d \<Rightarrow> digits_val (10 * acc + d) cs)"

definition strip :: "string \<Rightarrow> string" where
  "strip s = rev (dropWhile is_space (rev (dropWhile is_space s)))"

definition unsigned_of_str :: "string \<Rightarrow> error + int" where
  "unsigned_of_str ds =
     (if ds = [] then Inl ValueError
      else (case digits_val 0 ds of None \<Rightarrow> Inl ValueError | Some n \<Rightarrow> Inr n))"

definition int_of_str :: "string \<Rightarrow> error + int" where
  "int_of_str s =
     (case strip s of
        [] \<Rightarrow> Inl ValueError
      | c # cs \<Rightarrow>
          (if c = CHR ''-'' then and_then (unsigned_of_str cs) (\<lambda>n. Inr (- n))
           else if c = CHR ''+'' then unsigned_of_str cs
           else unsigned_of_str (c # cs)))"

fun py_int :: "pyval \<Rightarrow> error + int" where
  "py_int (PInt n) = Inr n"
| "py_int (PStr s) = int_of_str s"
| "py_int PNone = Inl TypeError"
| "py_int (PList vs) = Inl TypeError"
| "py_int (PTuple vs) = Inl TypeError"

section \<open>Construction and the accessors\<close>

text \<open>
  \<^verbatim>\<open>__init__\<close>. The two \<^verbatim>\<open>assert\<close>s test the truth value of strings. The test
  \<^verbatim>\<open>bind_port is None or len(bind_port) != 3\<close> evaluates \<^verbatim>\<open>len\<close> on every argument but
  \<^verbatim>\<open>None\<close>.
\<close>

definition init ::
  "string \<Rightarrow> pyval \<Rightarrow> string \<Rightarrow> string option \<Rightarrow> string option \<Rightarrow> string option
     \<Rightarrow> error + state" where
  "init server_arg bind_port remote_arg username_arg password_arg key_file_arg =
     (if server_arg = [] then Inl AssertionError
      else if remote_arg = [] then Inl AssertionError
      else
        and_then
          (if bind_port = PNone then Inr True
           else and_then (py_len bind_port) (\<lambda>n. Inr (n \<noteq> 3)))
          (\<lambda>single.
             let bp = (if single then PList [bind_port, bind_port, bind_port] else bind_port) in
             and_then (py_getitem bp 0) (\<lambda>b0.
             and_then (py_getitem bp 1) (\<lambda>b1.
             and_then (py_getitem bp 2) (\<lambda>b2.
               Inr \<lparr> server = server_arg, remote = remote_arg,
                     bind_port_min = b0, bind_port_max = b1, bind_port_try = b2,
                     bind_port_now = PNone,
                     username = username_arg, password = password_arg,
                     key_file = key_file_arg, look_for_keys = None,
                     thread = None, stop = False,
                     client_list = [], client_curr = - 1,
                     client_file = [], client_extra = [],
                     events = [], next_client = 0 \<rparr>)))))"

text \<open>\<^verbatim>\<open>set_bind_port\<close>: an integer or a string gives a triple; for any other argument the
  empty tuple is indexed.\<close>

definition set_bind_port :: "pyval \<Rightarrow> state \<Rightarrow> (error + unit) \<times> state" where
  "set_bind_port port s =
     (case (case port of
              PInt n \<Rightarrow> Inr (PTuple [PInt n, PInt n, PInt n])
            | PStr t \<Rightarrow> and_then (int_of_str t) (\<lambda>n. Inr (PTuple [PInt n, PInt n, PInt n]))
            | PNone \<Rightarrow> Inr (PTuple [])
            | PList vs \<Rightarrow> Inr (PTuple [])
            | PTuple vs \<Rightarrow> Inr (PTuple [])) of
        Inl e \<Rightarrow> (Inl e, s)
      | Inr bp \<Rightarrow>
          (case py_getitem bp 0 of
             Inl e \<Rightarrow> (Inl e, s)
           | Inr b0 \<Rightarrow>
               (case py_getitem bp 1 of
                  Inl e \<Rightarrow> (Inl e, s\<lparr>bind_port_min := b0\<rparr>)
                | Inr b1 \<Rightarrow>
                    (case py_getitem bp 2 of
                       Inl e \<Rightarrow> (Inl e, s\<lparr>bind_port_min := b0, bind_port_max := b1\<rparr>)
                     | Inr b2 \<Rightarrow>
                         (Inr (), s\<lparr>bind_port_min := b0, bind_port_max := b1,
                                    bind_port_try := b2\<rparr>)))))"

text \<open>The property \<^verbatim>\<open>client\<close> and its setter.\<close>

definition client :: "state \<Rightarrow> error + nat option" where
  "client s =
     (if client_curr s = - 1 then Inr None
      else and_then (py_index (client_list s) (client_curr s)) (\<lambda>c. Inr (Some c)))"

definition client_setter :: "nat \<Rightarrow> state \<Rightarrow> state" where
  "client_setter v s = s\<lparr>client_list := client_list s @ [v], client_curr := client_curr s + 1\<rparr>"

definition status_file :: "state \<Rightarrow> error + string option" where
  "status_file s =
     (if client_curr s = - 1 then Inr None
      else and_then (py_index (client_extra s) (client_curr s)) (\<lambda>x. Inr (Some (fst (snd x)))))"

definition client_count :: "state \<Rightarrow> nat" where
  "client_count s = length (client_list s)"

definition client_extra_get ::
  "state \<Rightarrow> error + ((pyval \<times> int) \<times> string \<times> (pyval \<times> int)) option" where
  "client_extra_get s =
     (if client_curr s = - 1 then Inr None
      else and_then (py_index (client_extra s) (client_curr s)) (\<lambda>x. Inr (Some x)))"

definition client_extra_setter ::
  "((pyval \<times> int) \<times> string \<times> (pyval \<times> int)) \<Rightarrow> state \<Rightarrow> state" where
  "client_extra_setter v s = s\<lparr>client_extra := client_extra s @ [v]\<rparr>"

text \<open>\<^verbatim>\<open>client_remove\<close>: \<^verbatim>\<open>list.pop()\<close> raises on the empty list.\<close>

definition client_remove :: "state \<Rightarrow> (error + nat option) \<times> state" where
  "client_remove s =
     (if client_curr s = - 1 then (Inr None, s)
      else
        (let s1 = s\<lparr>client_curr := client_curr s - 1\<rparr> in
         if client_list s1 = [] then (Inl IndexError, s1)
         else (Inr (Some (last (client_list s1))),
               s1\<lparr>client_list := butlast (client_list s1)\<rparr>)))"

section \<open>Parsing the endpoints\<close>

text \<open>\<^verbatim>\<open>get_host_port\<close>: the list \<^verbatim>\<open>spec.split(':', 1) + [default_port]\<close> cut to two
  elements, the second passed through \<^verbatim>\<open>int\<close>.\<close>

definition get_host_port :: "string \<Rightarrow> int \<Rightarrow> error + (pyval \<times> int)" where
  "get_host_port spec default_port =
     (let args = take 2 (map PStr (split1 CHR '':'' spec) @ [PInt default_port]) in
      and_then (py_int (args ! 1)) (\<lambda>p. Inr (args ! 0, p)))"

definition SSH_PORT :: int where
  "SSH_PORT = 22"

text \<open>\<^verbatim>\<open>_parse_options\<close>: the user name and \<^verbatim>\<open>look_for_keys\<close> are stored before the two
  specifications are parsed.\<close>

definition parse_options ::
  "env \<Rightarrow> state \<Rightarrow> (error + ((pyval \<times> int) \<times> (pyval \<times> int))) \<times> state" where
  "parse_options ev s =
     (let s1 = s\<lparr>username := (case username s of None \<Rightarrow> Some (os_user ev) | Some u \<Rightarrow> Some u),
                  look_for_keys := Some True\<rparr>
      in (and_then (get_host_port (server s1) SSH_PORT) (\<lambda>srv.
          and_then (get_host_port (remote s1) SSH_PORT) (\<lambda>rmt. Inr (srv, rmt))), s1))"

section \<open>Creating a tunnel\<close>

text \<open>\<^verbatim>\<open>_connect_to_server\<close> connects the client that the property \<^verbatim>\<open>client\<close> returns; the
  time-out (a floating-point number of seconds) is left out.\<close>

definition connect_to_server :: "env \<Rightarrow> (pyval \<times> int) \<Rightarrow> state \<Rightarrow> (error + unit) \<times> state" where
  "connect_to_server ev srv s =
     (case client s of
        Inl e \<Rightarrow> (Inl e, s)
      | Inr None \<Rightarrow> (Inl AttributeError, s)
      | Inr (Some c) \<Rightarrow>
          (let s1 = s\<lparr>events := events s @ [Connect c (fst srv) (snd srv)]\<rparr> in
           if connect_fails ev then (Inl ConnectError, s1) else (Inr (), s1)))"

text \<open>\<^verbatim>\<open>_test_remote_connectable\<close>: the socket is closed on the successful path only.\<close>

definition test_remote_connectable ::
  "env \<Rightarrow> (pyval \<times> int) \<Rightarrow> state \<Rightarrow> (error + unit) \<times> state" where
  "test_remote_connectable ev rmt s =
     (let s1 = s\<lparr>events := events s @ [SocketConnect (fst rmt) (snd rmt)]\<rparr> in
      if remote_connectable ev then (Inr (), s1\<lparr>events := events s1 @ [SocketClose]\<rparr>)
      else (Inl SocketError, s1))"

text \<open>
  The operators that the binder applies to a port, which may be any value. \<^verbatim>\<open>==\<close> is equality
  of values. \<^verbatim>\<open><\<close> compares two integers, two strings (byte by byte), two lists or two
  tuples (at the first position where they differ, else by length); values of different kinds
  are ordered by kind: \<^verbatim>\<open>None\<close>, then numbers, then the other kinds by the name of their type,
  \<^verbatim>\<open>list\<close>, \<^verbatim>\<open>str\<close>, \<^verbatim>\<open>tuple\<close>. \<^verbatim>\<open>+= 1\<close> is defined on an integer and raises
  \<^verbatim>\<open>TypeError\<close> on anything else, and so does the format \<^verbatim>\<open>%d\<close>.
\<close>

fun kind :: "pyval \<Rightarrow> nat" where
  "kind PNone = 0"
| "kind (PInt n) = 1"
| "kind (PList vs) = 2"
| "kind (PStr t) = 3"
| "kind (PTuple vs) = 4"

fun str_lt :: "string \<Rightarrow> string \<Rightarrow> bool" where
  "str_lt [] ys = (ys \<noteq> [])"
| "str_lt (x # xs) [] = False"
| "str_lt (x # xs) (y # ys) =
     (if x = y then str_lt xs ys else (of_char x :: nat) < of_char y)"

fun py_lt :: "pyval \<Rightarrow> pyval \<Rightarrow> bool" and seq_lt :: "pyval list \<Rightarrow> pyval list \<Rightarrow> bool" where
  "py_lt (PInt a) (PInt b) = (a < b)"
| "py_lt (PStr a) (PStr b) = str_lt a b"
| "py_lt (PList a) (PList b) = seq_lt a b"
| "py_lt (PTuple a) (PTuple b) = seq_lt a b"
| "py_lt a b = (kind a < kind b)"
| "seq_lt [] ys = (ys \<noteq> [])"
| "seq_lt (x # xs) [] = False"
| "seq_lt (x # xs) (y # ys) = (if x = y then seq_lt xs ys else py_lt x y)"

fun py_succ :: "pyval \<Rightarrow> pyval option" where
  "py_succ (PInt n) = Some (PInt (n + 1))"
| "py_succ v = None"

fun is_int :: "pyval \<Rightarrow> bool" where
  "is_int (PInt n) = True"
| "is_int v = False"

text \<open>What \<^verbatim>\<open>raise Exception("forward port %d ~ %d already used!" % (min, max))\<close> raises.\<close>

fun exhausted :: "pyval \<Rightarrow> pyval \<Rightarrow> error" where
  "exhausted (PInt mn) (PInt mx) = PortsExhausted mn mx"
| "exhausted a b = TypeError"

text \<open>
  The loop of \<^verbatim>\<open>_try_bind_server_port\<close>. \<open>t\<close> names the transport, \<open>mn\<close>, \<open>mx\<close> and \<open>tr\<close>
  are \<^verbatim>\<open>bind_port_min\<close>, \<^verbatim>\<open>bind_port_max\<close> and \<^verbatim>\<open>bind_port_try\<close>, and \<open>evs\<close> collects
  the requests. The three \<^verbatim>\<open>if\<close>s of the \<^verbatim>\<open>except paramiko.SSHException\<close> branch run one
  after the other; what they raise leaves the function. The loop has no bound of its own: where
  it does not end the value is \<open>None\<close>.
\<close>

partial_function (option) bind_loop ::
  "(pyval \<Rightarrow> bind_result) \<Rightarrow> nat \<Rightarrow> pyval \<Rightarrow> pyval \<Rightarrow> pyval \<Rightarrow> pyval \<Rightarrow> event list
     \<Rightarrow> ((error + pyval) \<times> event list) option" where
  "bind_loop req t mn mx tr port_try evs =
     (let evs1 = evs @ [RequestPortForward t port_try] in
      if req port_try = Accepted then Some (Inr port_try, evs1)
      else if req port_try = Failed then Some (Inl TransportError, evs1)
      else if py_lt port_try mx \<and> py_succ port_try = None then Some (Inl TypeError, evs1)
      else
        (let p1 = (if py_lt port_try mx then the (py_succ port_try) else port_try);
             p2 = (if p1 = mx then mn else p1)
         in if p2 = tr then Some (Inl (exhausted mn mx), evs1)
            else bind_loop req t mn mx tr p2 evs1))"

declare bind_loop.simps [code]

definition try_bind_server_port :: "env \<Rightarrow> nat \<Rightarrow> state \<Rightarrow> ((error + unit) \<times> state) option" where
  "try_bind_server_port ev t s =
     (case bind_loop (request_port_forward ev) t (bind_port_min s) (bind_port_max s)
             (bind_port_try s) (bind_port_try s) (events s) of
        None \<Rightarrow> None
      | Some (Inl e, evs) \<Rightarrow> Some (Inl e, s\<lparr>events := evs\<rparr>)
      | Some (Inr p, evs) \<Rightarrow> Some (Inr (), s\<lparr>bind_port_now := p, events := evs\<rparr>))"

section \<open>Removing a tunnel and the acceptor\<close>

text \<open>\<^verbatim>\<open>remove\<close>: the flag is set before the stack is looked at. \<^verbatim>\<open>client.close()\<close> on the
  \<^verbatim>\<open>None\<close> that \<^verbatim>\<open>client_remove\<close> may return raises \<^verbatim>\<open>AttributeError\<close>.\<close>

definition remove :: "state \<Rightarrow> (error + unit) \<times> state" where
  "remove s =
     (let s1 = s\<lparr>stop := True\<rparr> in
      if client_count s1 = 0 then (Inr (), s1)
      else
        (case client_remove s1 of
           (Inl e, s2) \<Rightarrow> (Inl e, s2)
         | (Inr None, s2) \<Rightarrow> (Inl AttributeError, s2)
         | (Inr (Some c), s2) \<Rightarrow> (Inr (), s2\<lparr>events := events s2 @ [ClientClose c]\<rparr>)))"

text \<open>
  One round of the \<^verbatim>\<open>while True\<close> loop of \<^verbatim>\<open>_reverse_forward_tunnel\<close> for the transport
  \<open>t\<close>; \<open>cb\<close> tells whether a failure callback was given. The Boolean of the result tells
  whether the loop goes on. An exception (of \<^verbatim>\<open>accept\<close>, or of \<^verbatim>\<open>remove\<close>) ends the thread.
\<close>

fun acceptor_round :: "accept_result \<Rightarrow> nat \<Rightarrow> bool \<Rightarrow> state \<Rightarrow> bool \<times> state" where
  "acceptor_round AcceptRaises t cb s = (False, s)"
| "acceptor_round (Channel ch) t cb s =
     (if stop s then (False, s)
      else (True, s\<lparr>events := events s @ [SpawnRelay ch]\<rparr>))"
| "acceptor_round (Timeout alive) t cb s =
     (if stop s then (False, s)
      else if alive then (True, s)
      else
        (case remove (s\<lparr>events := events s @ [TransportClose t]\<rparr>) of
           (Inl e, s1) \<Rightarrow> (False, s1)
         | (Inr u, s1) \<Rightarrow>
             (False, if cb then s1\<lparr>events := events s1 @ [FailureCallback]\<rparr> else s1)))"

text \<open>The whole loop, run on the answers that \<^verbatim>\<open>accept\<close> gives. When the answers run out the
  thread waits for ever.\<close>

fun reverse_forward_tunnel :: "accept_result list \<Rightarrow> nat \<Rightarrow> bool \<Rightarrow> state \<Rightarrow> state option" where
  "reverse_forward_tunnel [] t cb s = None"
| "reverse_forward_tunnel (a # rest) t cb s =
     (case acceptor_round a t cb s of
        (True, s1) \<Rightarrow> reverse_forward_tunnel rest t cb s1
      | (False, s1) \<Rightarrow> Some s1)"

text \<open>
  \<^verbatim>\<open>create\<close>. The new client is pushed before the connection is attempted, and no step that
  fails takes it off again. The message logged after the bind formats \<^verbatim>\<open>bind_port_now\<close> with
  \<^verbatim>\<open>%d\<close>, which raises on a port that is not an integer. When \<^verbatim>\<open>thr.start()\<close> raises,
  the handler sets the flag and then formats \<^verbatim>\<open>thr.ident\<close>, which is \<^verbatim>\<open>None\<close> for a
  thread that never started, with \<^verbatim>\<open>%d\<close>: a \<^verbatim>\<open>TypeError\<close> leaves \<^verbatim>\<open>create\<close>. With
  \<open>daemon\<close> false the call joins the acceptor thread, so the acceptor runs to its end before
  \<^verbatim>\<open>create\<close> returns.
\<close>

definition create :: "env \<Rightarrow> bool \<Rightarrow> bool \<Rightarrow> state \<Rightarrow> ((error + unit) \<times> state) option" where
  "create ev daemon cb s0 =
     (case parse_options ev s0 of
        (Inl e, s1) \<Rightarrow> Some (Inl e, s1)
      | (Inr (srv, rmt), s1) \<Rightarrow>
          (let c = next_client s1;
               s2 = client_setter c
                      (s1\<lparr>events := events s1 @ [NewClient c], next_client := Suc c\<rparr>)
           in case connect_to_server ev srv s2 of
                (Inl e, s3) \<Rightarrow> Some (Inl e, s3)
              | (Inr u, s3) \<Rightarrow>
                  (case test_remote_connectable ev rmt s3 of
                     (Inl e, s4) \<Rightarrow> Some (Inl e, s4)
                   | (Inr u, s4) \<Rightarrow>
                       (case try_bind_server_port ev c s4 of
                          None \<Rightarrow> None
                        | Some (Inl e, s5) \<Rightarrow> Some (Inl e, s5)
                        | Some (Inr u, s5) \<Rightarrow>
                            (if \<not> is_int (bind_port_now s5) then Some (Inl TypeError, s5)
                             else
                               (let s6 = s5\<lparr>thread := Some c, stop := False\<rparr> in
                                case thread_outcome ev of
                                  StartFails \<Rightarrow> Some (Inl TypeError, s6\<lparr>stop := True\<rparr>)
                                | Interrupted \<Rightarrow>
                                    Some (Inl KeyboardInterrupt,
                                          s6\<lparr>events := events s6 @ [ThreadStart c],
                                             stop := True\<rparr>)
                                | Started \<Rightarrow>
                                    (let s7 = s6\<lparr>events := events s6 @ [ThreadStart c]\<rparr> in
                                     if daemon then Some (Inr (), s7)
                                     else
                                       (case reverse_forward_tunnel (accepts ev) c cb s7 of
                                          None \<Rightarrow> None
                                        | Some s8 \<Rightarrow> Some (Inr (), s8)))))))))"

section \<open>The relay\<close>

text \<open>
  What the surroundings do in one round of the copy loop of \<^verbatim>\<open>handler\<close>: the two sides that
  \<^verbatim>\<open>select\<close> reports readable (\<open>None\<close> when \<^verbatim>\<open>select\<close> raises), the value of
  \<^verbatim>\<open>self.stop\<close> read in that round, and the outcome of each \<^verbatim>\<open>recv\<close> (\<open>None\<close> when it
  raises) and \<^verbatim>\<open>send\<close>.
\<close>

record round =
  select_ready :: "(bool \<times> bool) option"
  stop_seen :: bool
  sock_recv :: "string option"
  chan_send_ok :: bool
  chan_recv :: "string option"
  sock_send_ok :: bool

text \<open>How one of the two \<^verbatim>\<open>if ... in r\<close> blocks of the loop body ends.\<close>

datatype flow = Raised error | Broke | Went

definition from_sock :: "round \<Rightarrow> event list \<Rightarrow> flow \<times> event list" where
  "from_sock r evs =
     (case sock_recv r of
        None \<Rightarrow> (Raised SocketError, evs)
      | Some d \<Rightarrow>
          (if length d = 0 then (Broke, evs)
           else if chan_send_ok r then (Went, evs @ [ChannelSend d])
           else (Raised SocketError, evs)))"

definition from_chan :: "round \<Rightarrow> event list \<Rightarrow> flow \<times> event list" where
  "from_chan r evs =
     (case chan_recv r of
        None \<Rightarrow> (Raised SocketError, evs)
      | Some d \<Rightarrow>
          (if length d = 0 then (Broke, evs)
           else if sock_send_ok r then (Went, evs @ [SocketSend d])
           else (Raised SocketError, evs)))"

text \<open>The \<^verbatim>\<open>while True\<close> loop of \<^verbatim>\<open>handler\<close>. \<^verbatim>\<open>select\<close> is called without a time-out: when
  the rounds run out it blocks for ever.\<close>

fun copy_loop :: "round list \<Rightarrow> event list \<Rightarrow> ((error + unit) \<times> event list) option" where
  "copy_loop [] evs = None"
| "copy_loop (r # rest) evs =
     (case select_ready r of
        None \<Rightarrow> Some (Inl SocketError, evs)
      | Some (sock_in, chan_in) \<Rightarrow>
          (if stop_seen r then Some (Inr (), evs)
           else
             (case (if sock_in then from_sock r evs else (Went, evs)) of
                (Raised e, evs1) \<Rightarrow> Some (Inl e, evs1)
              | (Broke, evs1) \<Rightarrow> Some (Inr (), evs1)
              | (Went, evs1) \<Rightarrow>
                  (case (if chan_in then from_chan r evs1 else (Went, evs1)) of
                     (Raised e, evs2) \<Rightarrow> Some (Inl e, evs2)
                   | (Broke, evs2) \<Rightarrow> Some (Inr (), evs2)
                   | (Went, evs2) \<Rightarrow> copy_loop rest evs2))))"

text \<open>\<^verbatim>\<open>handler\<close>: the two \<^verbatim>\<open>close\<close> calls stand in the \<^verbatim>\<open>except\<close> branch of the connection
  attempt and after the loop.\<close>

definition handler ::
  "bool \<Rightarrow> round list \<Rightarrow> pyval \<Rightarrow> int \<Rightarrow> ((error + unit) \<times> event list) option" where
  "handler connect_ok rounds host port =
     (if connect_ok
      then
        (case copy_loop rounds [SocketConnect host port] of
           None \<Rightarrow> None
         | Some (Inl e, evs) \<Rightarrow> Some (Inl e, evs)
         | Some (Inr u, evs) \<Rightarrow> Some (Inr (), evs @ [ChannelClose, SocketClose]))
      else Some (Inl SocketError, [SocketConnect host port, ChannelClose, SocketClose]))"

section \<open>Sequences of calls\<close>

text \<open>The calls that reach a manager: the two public operations, \<^verbatim>\<open>set_bind_port\<close>, and one
  round of an acceptor thread started earlier. A caller that catches what a call raises goes on
  with the state the call left.\<close>

datatype operation =
    Create env bool bool
  | Remove
  | SetBindPort pyval
  | AcceptorRound accept_result nat bool

fun run_op :: "operation \<Rightarrow> state \<Rightarrow> ((error + unit) \<times> state) option" where
  "run_op (Create ev daemon cb) s = create ev daemon cb s"
| "run_op Remove s = Some (remove s)"
| "run_op (SetBindPort port) s = Some (set_bind_port port s)"
| "run_op (AcceptorRound a t cb) s = Some (Inr (), snd (acceptor_round a t cb s))"

fun run_ops :: "operation list \<Rightarrow> state \<Rightarrow> state option" where
  "run_ops [] s = Some s"
| "run_ops (x # xs) s = (case run_op x s of None \<Rightarrow> None | Some (r, s1) \<Rightarrow> run_ops xs s1)"

text \<open>The recorded effects that are remote bind requests, and those that close a client or a
  transport.\<close>

fun is_bind :: "event \<Rightarrow> bool" where
  "is_bind (RequestPortForward t p) = True"
| "is_bind e = False"

fun is_close :: "event \<Rightarrow> bool" where
  "is_close (ClientClose c) = True"
| "is_close (TransportClose t) = True"
| "is_close e = False"

text \<open>The ports asked for in the recorded remote bind requests, in order, and those among them
  that a call added which led from the state \<open>s\<close> to the state \<open>s'\<close>.\<close>

fun requests :: "event list \<Rightarrow> pyval list" where
  "requests [] = []"
| "requests (RequestPortForward t p # evs) = p # requests evs"
| "requests (e # evs) = requests evs"

definition new_requests :: "state \<Rightarrow> state \<Rightarrow> pyval list" where
  "new_requests s s' = drop (length (requests (events s))) (requests (events s'))"


fun is_create :: "operation \<Rightarrow> bool" where
  "is_create (Create ev daemon cb) = True"
| "is_create x = False"

text \<open>The stack as \<^verbatim>\<open>create\<close> and \<^verbatim>\<open>remove\<close> keep it: the index is that of the last client, and
  no metadata record has been appended.\<close>

definition consistent :: "state \<Rightarrow> bool" where
  "consistent s = (client_curr s = int (length (client_list s)) - 1 \<and> client_extra s = [])"

section \<open>Example surroundings\<close>

text \<open>The manager of the constructor's docstring,
  \<^verbatim>\<open>SSHReverse('101.199.126.121', (10000, 10200, 10022), '127.0.0.1:7775')\<close>, and one with
  the range of two ports \<^verbatim>\<open>(10000, 10001, 10000)\<close>.\<close>

definition example_state :: state where
  "example_state =
     \<lparr> server = ''101.199.126.121'', remote = ''127.0.0.1:7775'',
       bind_port_min = PInt 10000, bind_port_max = PInt 10200, bind_port_try = PInt 10022,
       bind_port_now = PNone,
       username = None, password = None, key_file = None, look_for_keys = None,
       thread = None, stop = False,
       client_list = [], client_curr = - 1, client_file = [], client_extra = [],
       events = [], next_client = 0 \<rparr>"

definition small_state :: state where
  "small_state =
     example_state\<lparr>bind_port_min := PInt 10000, bind_port_max := PInt 10001,
                   bind_port_try := PInt 10000\<rparr>"

text \<open>Surroundings in which everything succeeds and the server grants exactly the port \<open>p\<close>;
  in which the server grants no port; in which the SSH server cannot be reached; in which the
  destination cannot be reached; and in which the peer is found dead at the first poll.\<close>

definition granting :: "int \<Rightarrow> env" where
  "granting p =
     \<lparr> os_user = ''root'', connect_fails = False, remote_connectable = True,
       request_port_forward = (\<lambda>q. if q = PInt p then Accepted else Rejected),
       thread_outcome = Started, accepts = [] \<rparr>"

definition rejecting :: env where
  "rejecting = (granting 0)\<lparr>request_port_forward := (\<lambda>q. Rejected)\<rparr>"

definition unreachable_server :: env where
  "unreachable_server = (granting 10022)\<lparr>connect_fails := True\<rparr>"

definition unreachable_destination :: env where
  "unreachable_destination = (granting 10022)\<lparr>remote_connectable := False\<rparr>"

definition dying_peer :: env where
  "dying_peer = (granting 10022)\<lparr>accepts := [Timeout False]\<rparr>"

text \<open>The states the docstring's manager goes through when a first tunnel is created on port
  \<open>10022\<close>, a second one on port \<open>10023\<close>, the second is removed, and a third is created on
  port \<open>10024\<close>.\<close>

definition one_tunnel :: state where
  "one_tunnel =
     example_state\<lparr>bind_port_now := PInt 10022, username := Some ''root'',
       look_for_keys := Some True, thread := Some 0, stop := False,
       client_list := [0], client_curr := 0,
       events := [NewClient 0, Connect 0 (PStr ''101.199.126.121'') 22,
                  SocketConnect (PStr ''127.0.0.1'') 7775, SocketClose,
                  RequestPortForward 0 (PInt 10022), ThreadStart 0],
       next_client := 1\<rparr>"

definition two_tunnels :: state where
  "two_tunnels =
     one_tunnel\<lparr>bind_port_now := PInt 10023, thread := Some 1,
       client_list := [0, 1], client_curr := 1,
       events := events one_tunnel @
                 [NewClient 1, Connect 1 (PStr ''101.199.126.121'') 22,
                  SocketConnect (PStr ''127.0.0.1'') 7775, SocketClose,
                  RequestPortForward 1 (PInt 10022), RequestPortForward 1 (PInt 10023), ThreadStart 1],
       next_client := 2\<rparr>"

definition one_left :: state where
  "one_left =
     two_tunnels\<lparr>stop := True, client_list := [0], client_curr := 0,
       events := events two_tunnels @ [ClientClose 1]\<rparr>"

definition reopened :: state where
  "reopened =
     one_left\<lparr>bind_port_now := PInt 10024, thread := Some 2, stop := False,
       client_list := [0, 2], client_curr := 1,
       events := events one_left @
                 [NewClient 2, Connect 2 (PStr ''101.199.126.121'') 22,
                  SocketConnect (PStr ''127.0.0.1'') 7775, SocketClose,
                  RequestPortForward 2 (PInt 10022), RequestPortForward 2 (PInt 10023),
                  RequestPortForward 2 (PInt 10024), ThreadStart 2],
       next_client := 3\<rparr>"

text \<open>The state in which a \<^verbatim>\<open>create\<close> that found the destination unreachable leaves the
  docstring's manager, and the state after a blocking \<^verbatim>\<open>create\<close> whose acceptor found the
  peer dead.\<close>

definition stranded :: state where
  "stranded =
     example_state\<lparr>username := Some ''root'', look_for_keys := Some True,
       client_list := [0], client_curr := 0,
       events := [NewClient 0, Connect 0 (PStr ''101.199.126.121'') 22,
                  SocketConnect (PStr ''127.0.0.1'') 7775],
       next_client := 1\<rparr>"

definition peer_gone :: state where
  "peer_gone =
     one_tunnel\<lparr>stop := True, client_list := [], client_curr := - 1,
       events := events one_tunnel @ [TransportClose 0, ClientClose 0]\<rparr>"

text \<open>A round of the relay in which the socket is readable and \<^verbatim>\<open>sock.recv\<close> raises.\<close>

definition reset_round :: round where
  "reset_round =
     \<lparr> select_ready = Some (True, False), stop_seen = False, sock_recv = None,
       chan_send_ok = True, chan_recv = None, sock_send_ok = True \<rparr>"

section \<open>Properties of the port binder\<close>

text \<open>
  Three runs of the loop on the range \<open>10000 .. 10002\<close>. Started at the upper end it wraps to
  the lower end and finds port \<open>10001\<close>. Started at the lower end it never requests the upper
  end, also when that is the one free port. Started at the upper end with every port refused,
  the candidate cycles through \<open>10000\<close> and \<open>10001\<close> without ever being \<open>10002\<close> again, and
  the loop does not end.
\<close>

lemma bind_loop_wraps_past_preferred_max:
  "bind_loop (\<lambda>q. if q = PInt 10001 then Accepted else Rejected) t
     (PInt 10000) (PInt 10002) (PInt 10002) (PInt 10002) [] =
     Some (Inr (PInt 10001),
           [RequestPortForward t (PInt 10002), RequestPortForward t (PInt 10000),
            RequestPortForward t (PInt 10001)])"
  by (simp add: bind_loop.simps Let_def)

lemma bind_loop_skips_max:
  "bind_loop (\<lambda>q. if q = PInt 10002 then Accepted else Rejected) t
     (PInt 10000) (PInt 10002) (PInt 10000) (PInt 10000) [] =
     Some (Inl (PortsExhausted 10000 10002),
           [RequestPortForward t (PInt 10000), RequestPortForward t (PInt 10001)])"
  by (simp add: bind_loop.simps Let_def)

lemma bind_loop_never_ends:
  assumes "p \<in> {PInt 10000, PInt 10001, PInt 10002}"
  shows "bind_loop (\<lambda>q. Rejected) t (PInt 10000) (PInt 10002) (PInt 10002) p evs = None"
proof (rule ccontr)
  assume "bind_loop (\<lambda>q. Rejected) t (PInt 10000) (PInt 10002) (PInt 10002) p evs \<noteq> None"
  then obtain y where y: "bind_loop (\<lambda>q. Rejected) t (PInt 10000) (PInt 10002) (PInt 10002) p evs = Some y"
    by auto
  have "\<not> (req = (\<lambda>q. Rejected) \<and> mn = PInt 10000 \<and> mx = PInt 10002 \<and> tr = PInt 10002 \<and>
            q \<in> {PInt 10000, PInt 10001, PInt 10002})"
    if "bind_loop req t mn mx tr q evs = Some y" for req mn mx tr q
    using that
  proof (induct rule: bind_loop.raw_induct [rotated 1, consumes 1, case_names step])
    case (step bind_loop req t mn mx tr port_try evs y)
    show ?case
    proof
      assume a: "req = (\<lambda>q. Rejected) \<and> mn = PInt 10000 \<and> mx = PInt 10002 \<and> tr = PInt 10002 \<and>
            port_try \<in> {PInt 10000, PInt 10001, PInt 10002}"
      then consider "port_try = PInt 10000" | "port_try = PInt 10001" | "port_try = PInt 10002"
        by auto
      then show False
      proof cases
        case 1
        with a step(2) have "bind_loop req t mn mx tr (PInt 10001) (evs @ [RequestPortForward t port_try]) = Some y"
          by (simp add: Let_def)
        from step(1) [OF this] a show False by simp
      next
        case 2
        with a step(2) have "bind_loop req t mn mx tr (PInt 10000) (evs @ [RequestPortForward t port_try]) = Some y"
          by (simp add: Let_def)
        from step(1) [OF this] a show False by simp
      next
        case 3
        with a step(2) have "bind_loop req t mn mx tr (PInt 10000) (evs @ [RequestPortForward t port_try]) = Some y"
          by (simp add: Let_def)
        from step(1) [OF this] a show False by simp
      qed
    qed
  qed
  from this [OF y] assms show False
    by simp
qed


lemma bind_loop_refused_at_max:
  assumes "req (PInt mx) = Rejected"
  shows "bind_loop req t (PInt mn) (PInt mx) (PInt tr) (PInt mx) evs =
     (if mn = tr
      then Some (Inl (PortsExhausted mn mx), evs @ [RequestPortForward t (PInt mx)])
      else bind_loop req t (PInt mn) (PInt mx) (PInt tr) (PInt mn)
             (evs @ [RequestPortForward t (PInt mx)]))"
  using assms by (subst bind_loop.simps) (simp add: Let_def)




text \<open>
  C1. The binder is to probe \<open>preferred, preferred + 1, \<dots>, max, min, \<dots>, preferred - 1\<close> and to
  raise the exhaustion error only after every port of the range was refused once. The loop
  does not do that: after a refusal it steps to the next port, and a candidate that equals
  \<^verbatim>\<open>bind_port_max\<close> is replaced by \<^verbatim>\<open>bind_port_min\<close> before it is ever requested. On the
  range \<open>(10000, 10001, 10000)\<close> with a server that refuses every port, the claim expects the
  requests \<open>10000, 10001\<close>; the code requests \<open>10000\<close> alone and reports the range
  \<open>10000 ~ 10001\<close> as used.
\<close>

theorem two_port_range_probes_preferred_only:
  "try_bind_server_port rejecting 0 small_state =
     Some (Inl (PortsExhausted 10000 10001),
           small_state\<lparr>events := [RequestPortForward 0 (PInt 10000)]\<rparr>)"
  by (simp add: try_bind_server_port_def small_state_def example_state_def rejecting_def
      granting_def bind_loop.simps)

section \<open>Properties of the relay\<close>

text \<open>Every normal end of \<^verbatim>\<open>handler\<close> closes the channel and the socket, and the loop itself
  closes neither.\<close>

lemma copy_loop_grows:
  "copy_loop rounds evs = Some (r, evs') \<Longrightarrow>
     \<exists>new. evs' = evs @ new \<and> ChannelClose \<notin> set new \<and> SocketClose \<notin> set new"
proof (induction rounds arbitrary: evs)
  case Nil
  then show ?case by simp
next
  case (Cons rd rest)
  show ?case
  proof (cases "select_ready rd")
    case None
    with Cons.prems show ?thesis by simp
  next
    case (Some rdy)
    obtain sock_in chan_in where rdy: "rdy = (sock_in, chan_in)"
      by (cases rdy)
    show ?thesis
    proof (cases "stop_seen rd")
      case True
      with Cons.prems Some rdy show ?thesis by simp
    next
      case False
      obtain f1 evs1 where f1: "(if sock_in then from_sock rd evs else (Went, evs)) = (f1, evs1)"
        by (cases "if sock_in then from_sock rd evs else (Went, evs)")
      then have g1: "\<exists>new. evs1 = evs @ new \<and> ChannelClose \<notin> set new \<and> SocketClose \<notin> set new"
        by (auto simp: from_sock_def split: if_splits option.splits)
      obtain f2 evs2 where f2: "(if chan_in then from_chan rd evs1 else (Went, evs1)) = (f2, evs2)"
        by (cases "if chan_in then from_chan rd evs1 else (Went, evs1)")
      then have g2: "\<exists>new. evs2 = evs1 @ new \<and> ChannelClose \<notin> set new \<and> SocketClose \<notin> set new"
        by (auto simp: from_chan_def split: if_splits option.splits)
      show ?thesis
      proof (cases f1)
        case Went
        show ?thesis
        proof (cases f2)
          case w2: Went
          with Cons.prems Some rdy False f1 f2 Went
          have "copy_loop rest evs2 = Some (r, evs')"
            by simp
          from Cons.IH [OF this] g1 g2 show ?thesis
            by auto
        qed (use Cons.prems Some rdy False f1 f2 Went g1 g2 in auto)
      qed (use Cons.prems Some rdy False f1 g1 in auto)
    qed
  qed
qed

lemma handler_normal_exit_closes_both:
  "handler True rounds host port = Some (Inr (), evs) \<Longrightarrow>
     \<exists>pre. evs = pre @ [ChannelClose, SocketClose]"
  by (auto simp: handler_def split: option.splits sum.splits)

lemma handler_loop_error_closes_nothing:
  assumes "handler True rounds host port = Some (Inl e, evs)"
  shows "ChannelClose \<notin> set evs \<and> SocketClose \<notin> set evs"
proof -
  from assms have "copy_loop rounds [SocketConnect host port] = Some (Inl e, evs)"
    by (auto simp: handler_def split: option.splits sum.splits)
  from copy_loop_grows [OF this] show ?thesis
    by auto
qed

text \<open>
  C3. Every exit of the copy loop is to close the channel and the socket. The two \<^verbatim>\<open>close\<close>
  calls follow the loop and are reached by \<^verbatim>\<open>break\<close> only; an exception raised inside the
  loop leaves \<^verbatim>\<open>handler\<close> past them, although the \<^verbatim>\<open>except\<close> branch of the connection
  attempt in the same function closes both before it re-raises. Here the socket is readable
  and \<^verbatim>\<open>sock.recv\<close> raises in the first round: the handler ends with the error and has closed
  nothing.
\<close>

theorem relay_recv_error_closes_nothing:
  "handler True [reset_round] (PStr ''127.0.0.1'') 7775 =
     Some (Inl SocketError, [SocketConnect (PStr ''127.0.0.1'') 7775])"
  by (simp add: handler_def reset_round_def from_sock_def)

section \<open>Removing from the empty stack\<close>

text \<open>
  C7, as the code has it. \<^verbatim>\<open>remove()\<close> on a manager whose stack is empty never raises and is
  idempotent; it leaves the stack, the index and every other attribute as they were, except
  the stop flag, which it sets.
\<close>

theorem remove_on_empty_stack:
  "client_list s = [] \<Longrightarrow>
     remove s = (Inr (), s\<lparr>stop := True\<rparr>) \<and>
     remove (s\<lparr>stop := True\<rparr>) = (Inr (), s\<lparr>stop := True\<rparr>)"
  by (simp add: remove_def client_count_def)

theorem remove_on_empty_stack_witness:
  "client_list example_state = [] \<and>
   remove example_state = (Inr (), example_state\<lparr>stop := True\<rparr>) \<and>
   remove (example_state\<lparr>stop := True\<rparr>) = (Inr (), example_state\<lparr>stop := True\<rparr>)"
proof -
  have e: "client_list example_state = []"
    by (simp add: example_state_def)
  from e remove_on_empty_stack [OF e] show ?thesis
    by (rule conjI)
qed

text \<open>C7 as stated fails: on the freshly constructed manager, whose flag is false, the call
  does not leave the state unchanged.\<close>

theorem remove_on_empty_stack_counterexample:
  "client_list example_state = [] \<and> remove example_state \<noteq> (Inr (), example_state)"
  by (simp add: remove_def example_state_def client_count_def)

section \<open>The constructor\<close>

text \<open>A triple is taken apart into the three bounds, and \<^verbatim>\<open>None\<close> is replicated.\<close>

lemma init_triple:
  "srv \<noteq> [] \<Longrightarrow> rmt \<noteq> [] \<Longrightarrow>
   init srv (PTuple [a, b, c]) rmt u pw kf =
     Inr (example_state\<lparr>server := srv, remote := rmt, bind_port_min := a, bind_port_max := b,
            bind_port_try := c, username := u, password := pw, key_file := kf\<rparr>)"
  by (simp add: init_def and_then_def py_index_def example_state_def)

lemma init_none:
  "srv \<noteq> [] \<Longrightarrow> rmt \<noteq> [] \<Longrightarrow>
   init srv PNone rmt u pw kf =
     Inr (example_state\<lparr>server := srv, remote := rmt, bind_port_min := PNone,
            bind_port_max := PNone, bind_port_try := PNone,
            username := u, password := pw, key_file := kf\<rparr>)"
  by (simp add: init_def and_then_def py_index_def example_state_def)

text \<open>
  C8. A single value is to be accepted and copied into the three bounds, a single integer port
  in particular. The replication \<^verbatim>\<open>[bind_port for i in range(3)]\<close> is there, but the test in
  front of it calls \<^verbatim>\<open>len\<close> on the argument, and an integer has no length: the construction
  with the port \<open>10022\<close> raises \<^verbatim>\<open>TypeError\<close>.
\<close>

theorem init_single_integer_raises:
  "init ''101.199.126.121'' (PInt 10022) ''127.0.0.1:7775'' None None None = Inl TypeError"
  by (simp add: init_def and_then_def)

section \<open>Endpoint specifications\<close>

lemma takeWhile_upto_sep:
  "sep \<notin> set h \<Longrightarrow> takeWhile (\<lambda>c. c \<noteq> sep) (h @ sep # rest) = h"
  by (induction h) auto

lemma dropWhile_upto_sep:
  "sep \<notin> set h \<Longrightarrow> dropWhile (\<lambda>c. c \<noteq> sep) (h @ sep # rest) = sep # rest"
  by (induction h) auto

lemma split1_no_sep: "sep \<notin> set s \<Longrightarrow> split1 sep s = [s]"
  by (simp add: split1_def)

lemma split1_first_sep:
  "sep \<notin> set h \<Longrightarrow> split1 sep (h @ sep # rest) = [h, rest]"
  by (simp add: split1_def takeWhile_upto_sep dropWhile_upto_sep)

lemma int_of_str_7775: "int_of_str ''7775'' = Inr 7775"
  by (simp add: int_of_str_def strip_def is_space_def unsigned_of_str_def digit_val_def
      and_then_def)

text \<open>
  C9. A specification without a colon is returned whole, with the default port. A
  specification \<open>host:port_text\<close>, cut at its first colon, gives \<open>host\<close> and
  \<^verbatim>\<open>int(port_text)\<close>; where \<^verbatim>\<open>int\<close> raises, so does \<^verbatim>\<open>get_host_port\<close>.
\<close>

theorem get_host_port_cases:
  "(CHR '':'' \<notin> set spec \<longrightarrow> get_host_port spec default_port = Inr (PStr spec, default_port)) \<and>
   (CHR '':'' \<notin> set host \<longrightarrow>
      get_host_port (host @ CHR '':'' # port_text) default_port =
        and_then (int_of_str port_text) (\<lambda>p. Inr (PStr host, p)))"
  by (simp add: get_host_port_def split1_no_sep split1_first_sep and_then_def
      split: sum.splits)

theorem get_host_port_cases_witness:
  "CHR '':'' \<notin> set ''localhost'' \<and>
   get_host_port ''localhost'' 22 = Inr (PStr ''localhost'', 22) \<and>
   get_host_port ''localhost:7775'' 22 = Inr (PStr ''localhost'', 7775)"
proof -
  have c: "CHR '':'' \<notin> set ''localhost''"
    by simp
  have "get_host_port ''localhost'' 22 = Inr (PStr ''localhost'', 22)"
    using get_host_port_cases [of "''localhost''" 22] c by blast
  moreover have "get_host_port (''localhost'' @ CHR '':'' # ''7775'') 22 =
      and_then (int_of_str ''7775'') (\<lambda>p. Inr (PStr ''localhost'', p))"
    using get_host_port_cases [of _ 22 "''localhost''" "''7775''"] c by blast
  ultimately show ?thesis
    using c by (simp add: int_of_str_7775 and_then_def)
qed

section \<open>What each step of create and remove leaves alone\<close>

lemma exhausted_not_ValueError: "exhausted mn mx \<noteq> ValueError"
  by (induction mn mx rule: exhausted.induct) simp_all

lemma bind_loop_result:
  "bind_loop req t mn mx tr p evs = Some y \<Longrightarrow>
   \<exists>new q. snd y = evs @ new @ [RequestPortForward t q] \<and> list_all is_bind new \<and>
     fst y \<noteq> Inl ValueError \<and>
     (case fst y of
        Inl e \<Rightarrow> req q \<noteq> Accepted
      | Inr v \<Rightarrow> v = q \<and> req q = Accepted)"
proof (induct rule: bind_loop.raw_induct [rotated 1, consumes 1, case_names step])
  case 1: (step bind_loop req t mn mx tr port_try evs y)
  define p2 where "p2 = (if (if py_lt port_try mx then the (py_succ port_try) else port_try) = mx
                          then mn
                          else (if py_lt port_try mx then the (py_succ port_try) else port_try))"
  consider (accepted) "req port_try = Accepted"
    | (failed) "req port_try = Failed"
    | (no_succ) "req port_try = Rejected" "py_lt port_try mx \<and> py_succ port_try = None"
    | (raised) "req port_try = Rejected" "\<not> (py_lt port_try mx \<and> py_succ port_try = None)"
        "p2 = tr"
    | (again) "req port_try = Rejected" "\<not> (py_lt port_try mx \<and> py_succ port_try = None)"
        "p2 \<noteq> tr"
    by (cases "req port_try") blast+
  then show ?case
  proof cases
    case accepted
    with 1(2) have "y = (Inr port_try, evs @ [RequestPortForward t port_try])"
      by (simp add: Let_def)
    with accepted show ?thesis
      by (intro exI [of _ "[]"] exI [of _ port_try]) simp
  next
    case failed
    with 1(2) have "y = (Inl TransportError, evs @ [RequestPortForward t port_try])"
      by (simp add: Let_def)
    with failed show ?thesis
      by (intro exI [of _ "[]"] exI [of _ port_try]) simp
  next
    case no_succ
    with 1(2) have "y = (Inl TypeError, evs @ [RequestPortForward t port_try])"
      by (simp add: Let_def)
    with no_succ show ?thesis
      by (intro exI [of _ "[]"] exI [of _ port_try]) simp
  next
    case raised
    with 1(2) have "y = (Inl (exhausted mn mx), evs @ [RequestPortForward t port_try])"
      by (simp add: Let_def p2_def)
    with raised exhausted_not_ValueError [of mn mx] show ?thesis
      by (intro exI [of _ "[]"] exI [of _ port_try]) simp
  next
    case again
    with 1(2) have "bind_loop req t mn mx tr p2 (evs @ [RequestPortForward t port_try]) = Some y"
      by (simp add: Let_def p2_def)
    from 1(1) [OF this] obtain new q where
      n: "snd y = (evs @ [RequestPortForward t port_try]) @ new @ [RequestPortForward t q]"
        "list_all is_bind new" "fst y \<noteq> Inl ValueError"
        "(case fst y of Inl e \<Rightarrow> req q \<noteq> Accepted | Inr v \<Rightarrow> v = q \<and> req q = Accepted)"
      by blast
    show ?thesis
      by (intro exI [of _ "RequestPortForward t port_try # new"] exI [of _ q])
        (use n in simp)
  qed
qed

lemma int_of_str_error: "int_of_str t = Inl e \<Longrightarrow> e = ValueError"
  by (auto simp: int_of_str_def unsigned_of_str_def and_then_def
      split: list.splits if_splits option.splits sum.splits)

lemma get_host_port_error: "get_host_port spec d = Inl e \<Longrightarrow> e = ValueError"
  by (auto simp: get_host_port_def split1_def and_then_def
      split: if_splits sum.splits dest: int_of_str_error)

lemma parse_options_error: "parse_options ev s = (Inl e, s1) \<Longrightarrow> e = ValueError"
  by (auto simp: parse_options_def and_then_def Let_def
      split: sum.splits dest: get_host_port_error)

lemma parse_options_frame:
  "parse_options ev s = (r, s1) \<Longrightarrow>
     client_list s1 = client_list s \<and> client_curr s1 = client_curr s \<and>
     client_extra s1 = client_extra s \<and> events s1 = events s \<and> stop s1 = stop s \<and>
     bind_port_now s1 = bind_port_now s \<and> next_client s1 = next_client s"
  by (auto simp: parse_options_def Let_def)

lemma connect_to_server_frame:
  "connect_to_server ev srv s = (r, s1) \<Longrightarrow>
     client_list s1 = client_list s \<and> client_curr s1 = client_curr s \<and>
     client_extra s1 = client_extra s \<and> stop s1 = stop s \<and>
     bind_port_now s1 = bind_port_now s \<and>
     filter is_bind (events s1) = filter is_bind (events s) \<and>
     filter is_close (events s1) = filter is_close (events s) \<and>
     r \<noteq> Inl ValueError"
  by (auto simp: connect_to_server_def client_def py_index_def and_then_def Let_def
      split: sum.splits option.splits if_splits)

lemma test_remote_connectable_frame:
  "test_remote_connectable ev rmt s = (r, s1) \<Longrightarrow>
     client_list s1 = client_list s \<and> client_curr s1 = client_curr s \<and>
     client_extra s1 = client_extra s \<and> stop s1 = stop s \<and>
     bind_port_now s1 = bind_port_now s \<and>
     filter is_bind (events s1) = filter is_bind (events s) \<and>
     filter is_close (events s1) = filter is_close (events s) \<and>
     r \<noteq> Inl ValueError \<and> (r = Inr () \<longrightarrow> remote_connectable ev)"
  by (auto simp: test_remote_connectable_def Let_def split: if_splits)

lemma filter_close_binds: "list_all is_bind new \<Longrightarrow> filter is_close new = []"
  by (induction new) (auto elim: is_bind.elims)

lemma filter_bind_binds: "list_all is_bind new \<Longrightarrow> filter is_bind new = new"
  by (induction new) auto

lemma requests_append: "requests (a @ b) = requests a @ requests b"
  by (induction a rule: requests.induct) simp_all

lemma requests_filter: "requests (filter is_bind evs) = requests evs"
  by (induction evs rule: requests.induct) simp_all

lemma requests_same: "filter is_bind a = filter is_bind b \<Longrightarrow> requests a = requests b"
  using requests_filter [of a] requests_filter [of b] by simp

lemma try_bind_server_port_frame:
  assumes "try_bind_server_port ev t s = Some (r, s1)"
  shows "client_list s1 = client_list s \<and> client_curr s1 = client_curr s \<and>
     client_extra s1 = client_extra s \<and> stop s1 = stop s \<and>
     filter is_close (events s1) = filter is_close (events s) \<and>
     r \<noteq> Inl ValueError \<and>
     (\<exists>new q. events s1 = events s @ new @ [RequestPortForward t q] \<and>
        list_all is_bind new \<and>
        (case r of
           Inl e \<Rightarrow> bind_port_now s1 = bind_port_now s \<and> request_port_forward ev q \<noteq> Accepted
         | Inr u \<Rightarrow> bind_port_now s1 = q \<and> request_port_forward ev q = Accepted))"
proof -
  from assms obtain y where
    y: "bind_loop (request_port_forward ev) t (bind_port_min s) (bind_port_max s)
          (bind_port_try s) (bind_port_try s) (events s) = Some y"
    by (auto simp: try_bind_server_port_def split: option.splits)
  from bind_loop_result [OF y] obtain new q where
    n: "snd y = events s @ new @ [RequestPortForward t q]" "list_all is_bind new"
      "fst y \<noteq> Inl ValueError"
      "(case fst y of
          Inl e \<Rightarrow> request_port_forward ev q \<noteq> Accepted
        | Inr v \<Rightarrow> v = q \<and> request_port_forward ev q = Accepted)"
    by blast
  have ex: "\<exists>new q. events s1 = events s @ new @ [RequestPortForward t q] \<and>
        list_all is_bind new \<and>
        (case r of
           Inl e \<Rightarrow> bind_port_now s1 = bind_port_now s \<and> request_port_forward ev q \<noteq> Accepted
         | Inr u \<Rightarrow> bind_port_now s1 = q \<and> request_port_forward ev q = Accepted)"
    by (rule exI [of _ new], rule exI [of _ q])
      (use assms y n in \<open>cases y; auto simp: try_bind_server_port_def split: sum.splits\<close>)
  from assms y n have "client_list s1 = client_list s \<and> client_curr s1 = client_curr s \<and>
     client_extra s1 = client_extra s \<and> stop s1 = stop s \<and>
     filter is_close (events s1) = filter is_close (events s) \<and> r \<noteq> Inl ValueError"
    by (cases y) (auto simp: try_bind_server_port_def filter_close_binds split: sum.splits)
  with ex show ?thesis
    by simp
qed

lemma remove_frame:
  "remove s = (r, s1) \<Longrightarrow>
     stop s1 \<and> client_extra s1 = client_extra s \<and> bind_port_now s1 = bind_port_now s \<and>
     filter is_bind (events s1) = filter is_bind (events s)"
  by (auto simp: remove_def client_remove_def client_count_def Let_def
      split: if_splits prod.splits sum.splits option.splits)

lemma int_length_butlast: "xs \<noteq> [] \<Longrightarrow> int (length xs - Suc 0) = int (length xs) - 1"
  by (cases xs) auto

lemma remove_consistent: "remove s = (r, s1) \<Longrightarrow> consistent s \<Longrightarrow> consistent s1"
  by (auto simp: remove_def client_remove_def client_count_def Let_def consistent_def
      int_length_butlast split: if_splits prod.splits sum.splits option.splits)

lemma acceptor_round_frame:
  "acceptor_round a t cb s = (go, s1) \<Longrightarrow>
     (stop s \<longrightarrow> stop s1) \<and> client_extra s1 = client_extra s \<and>
     bind_port_now s1 = bind_port_now s \<and>
     filter is_bind (events s1) = filter is_bind (events s)"
  by (cases a) (auto split: if_splits prod.splits sum.splits dest!: remove_frame)

lemma acceptor_round_consistent:
  "acceptor_round a t cb s = (go, s1) \<Longrightarrow> consistent s \<Longrightarrow> consistent s1"
proof (cases a)
  case (Timeout alive)
  assume a: "acceptor_round a t cb s = (go, s1)" and c: "consistent s"
  from c have c1: "consistent (s\<lparr>events := events s @ [TransportClose t]\<rparr>)"
    by (simp add: consistent_def)
  from a Timeout remove_consistent [OF _ c1] c show ?thesis
    by (auto split: if_splits prod.splits sum.splits simp: consistent_def)
qed (auto simp: consistent_def split: if_splits)

lemma reverse_forward_tunnel_frame:
  "reverse_forward_tunnel script t cb s = Some s1 \<Longrightarrow>
     (stop s \<longrightarrow> stop s1) \<and> client_extra s1 = client_extra s \<and>
     bind_port_now s1 = bind_port_now s \<and>
     filter is_bind (events s1) = filter is_bind (events s)"
proof (induction script arbitrary: s)
  case Nil
  then show ?case by simp
next
  case (Cons a rest)
  obtain go s2 where r: "acceptor_round a t cb s = (go, s2)"
    by (cases "acceptor_round a t cb s")
  note f = acceptor_round_frame [OF r]
  show ?case
  proof (cases go)
    case True
    with Cons.prems r have "reverse_forward_tunnel rest t cb s2 = Some s1"
      by simp
    from Cons.IH [OF this] f show ?thesis
      by simp
  next
    case False
    with Cons.prems r f show ?thesis
      by simp
  qed
qed

lemma reverse_forward_tunnel_consistent:
  "reverse_forward_tunnel script t cb s = Some s1 \<Longrightarrow> consistent s \<Longrightarrow> consistent s1"
proof (induction script arbitrary: s)
  case Nil
  then show ?case by simp
next
  case (Cons a rest)
  obtain go s2 where r: "acceptor_round a t cb s = (go, s2)"
    by (cases "acceptor_round a t cb s")
  note c = acceptor_round_consistent [OF r Cons.prems(2)]
  show ?case
  proof (cases go)
    case True
    with Cons.prems r have "reverse_forward_tunnel rest t cb s2 = Some s1"
      by simp
    from Cons.IH [OF this c] show ?thesis .
  next
    case False
    with Cons.prems r c show ?thesis
      by simp
  qed
qed


lemma create_cases:
  assumes "create ev daemon cb s = Some (r, s')"
  obtains
    (parse) e where "parse_options ev s = (Inl e, s')" "r = Inl e"
  | (connect) srv rmt s1 e where
      "parse_options ev s = (Inr (srv, rmt), s1)"
      "connect_to_server ev srv
         (client_setter (next_client s1)
            (s1\<lparr>events := events s1 @ [NewClient (next_client s1)],
                 next_client := Suc (next_client s1)\<rparr>)) = (Inl e, s')"
      "r = Inl e"
  | (dest) srv rmt s1 s3 e where
      "parse_options ev s = (Inr (srv, rmt), s1)"
      "connect_to_server ev srv
         (client_setter (next_client s1)
            (s1\<lparr>events := events s1 @ [NewClient (next_client s1)],
                 next_client := Suc (next_client s1)\<rparr>)) = (Inr (), s3)"
      "test_remote_connectable ev rmt s3 = (Inl e, s')"
      "r = Inl e"
  | (bind) srv rmt s1 s3 s4 e where
      "parse_options ev s = (Inr (srv, rmt), s1)"
      "connect_to_server ev srv
         (client_setter (next_client s1)
            (s1\<lparr>events := events s1 @ [NewClient (next_client s1)],
                 next_client := Suc (next_client s1)\<rparr>)) = (Inr (), s3)"
      "test_remote_connectable ev rmt s3 = (Inr (), s4)"
      "try_bind_server_port ev (next_client s1) s4 = Some (Inl e, s')"
      "r = Inl e"
  | (format) srv rmt s1 s3 s4 where
      "parse_options ev s = (Inr (srv, rmt), s1)"
      "connect_to_server ev srv
         (client_setter (next_client s1)
            (s1\<lparr>events := events s1 @ [NewClient (next_client s1)],
                 next_client := Suc (next_client s1)\<rparr>)) = (Inr (), s3)"
      "test_remote_connectable ev rmt s3 = (Inr (), s4)"
      "try_bind_server_port ev (next_client s1) s4 = Some (Inr (), s')"
      "\<not> is_int (bind_port_now s')"
      "r = Inl TypeError"
  | (thread) srv rmt s1 s3 s4 s5 where
      "parse_options ev s = (Inr (srv, rmt), s1)"
      "connect_to_server ev srv
         (client_setter (next_client s1)
            (s1\<lparr>events := events s1 @ [NewClient (next_client s1)],
                 next_client := Suc (next_client s1)\<rparr>)) = (Inr (), s3)"
      "test_remote_connectable ev rmt s3 = (Inr (), s4)"
      "try_bind_server_port ev (next_client s1) s4 = Some (Inr (), s5)"
      "is_int (bind_port_now s5)"
      "(thread_outcome ev = StartFails \<and> r = Inl TypeError \<and>
          s' = s5\<lparr>thread := Some (next_client s1), stop := True\<rparr>) \<or>
       (thread_outcome ev = Interrupted \<and> r = Inl KeyboardInterrupt \<and>
          s' = s5\<lparr>thread := Some (next_client s1),
                  events := events s5 @ [ThreadStart (next_client s1)], stop := True\<rparr>) \<or>
       (thread_outcome ev = Started \<and> daemon \<and> r = Inr () \<and>
          s' = s5\<lparr>thread := Some (next_client s1), stop := False,
                  events := events s5 @ [ThreadStart (next_client s1)]\<rparr>) \<or>
       (thread_outcome ev = Started \<and> \<not> daemon \<and> r = Inr () \<and>
          reverse_forward_tunnel (accepts ev) (next_client s1) cb
            (s5\<lparr>thread := Some (next_client s1), stop := False,
                 events := events s5 @ [ThreadStart (next_client s1)]\<rparr>) = Some s')"
proof -
  obtain pr s1 where p: "parse_options ev s = (pr, s1)"
    by (cases "parse_options ev s")
  show thesis
  proof (cases pr)
    case (Inl e)
    with assms p have "s' = s1" "r = Inl e"
      by (simp_all add: create_def)
    with p Inl show thesis
      by (intro parse [of e]) simp_all
  next
    case (Inr pair)
    obtain srv rmt where pair: "pair = (srv, rmt)"
      by (cases pair)
    define c where "c = next_client s1"
    define s2 where "s2 = client_setter c
        (s1\<lparr>events := events s1 @ [NewClient c], next_client := Suc c\<rparr>)"
    obtain cr s3 where co: "connect_to_server ev srv s2 = (cr, s3)"
      by (cases "connect_to_server ev srv s2")
    from p Inr pair have p': "parse_options ev s = (Inr (srv, rmt), s1)"
      by simp
    have unf1: "create ev daemon cb s =
        (case cr of
           Inl e \<Rightarrow> Some (Inl e, s3)
         | Inr u \<Rightarrow>
             (case test_remote_connectable ev rmt s3 of
                (Inl e, s4) \<Rightarrow> Some (Inl e, s4)
              | (Inr u, s4) \<Rightarrow>
                  (case try_bind_server_port ev c s4 of
                     None \<Rightarrow> None
                   | Some (Inl e, s5) \<Rightarrow> Some (Inl e, s5)
                   | Some (Inr u, s5) \<Rightarrow>
                       (if \<not> is_int (bind_port_now s5) then Some (Inl TypeError, s5)
                        else
                       (let s6 = s5\<lparr>thread := Some c, stop := False\<rparr> in
                        case thread_outcome ev of
                          StartFails \<Rightarrow> Some (Inl TypeError, s6\<lparr>stop := True\<rparr>)
                        | Interrupted \<Rightarrow>
                            Some (Inl KeyboardInterrupt,
                                  s6\<lparr>events := events s6 @ [ThreadStart c], stop := True\<rparr>)
                        | Started \<Rightarrow>
                            (let s7 = s6\<lparr>events := events s6 @ [ThreadStart c]\<rparr> in
                             if daemon then Some (Inr (), s7)
                             else
                               (case reverse_forward_tunnel (accepts ev) c cb s7 of
                                  None \<Rightarrow> None
                                | Some s8 \<Rightarrow> Some (Inr (), s8))))))))"
      unfolding create_def p' using co
      by (simp only: prod.case sum.case Let_def c_def [symmetric] s2_def [symmetric])
    show thesis
    proof (cases cr)
      case (Inl e)
      with assms unf1 have "s' = s3" "r = Inl e"
        by simp_all
      with co Inl show thesis
        by (intro connect [OF p', of e]) (simp_all add: s2_def c_def)
    next
      case cok: (Inr u)
      obtain tr s4 where te: "test_remote_connectable ev rmt s3 = (tr, s4)"
        by (cases "test_remote_connectable ev rmt s3")
      from co cok have co': "connect_to_server ev srv
         (client_setter (next_client s1)
            (s1\<lparr>events := events s1 @ [NewClient (next_client s1)],
                 next_client := Suc (next_client s1)\<rparr>)) = (Inr (), s3)"
        by (simp add: s2_def c_def)
      show thesis
      proof (cases tr)
        case (Inl e)
        with assms unf1 cok te have "s' = s4" "r = Inl e"
          by simp_all
        with te Inl show thesis
          by (intro dest [OF p' co', of e]) simp_all
      next
        case tok: (Inr u2)
        from te tok have te': "test_remote_connectable ev rmt s3 = (Inr (), s4)"
          by simp
        show thesis
        proof (cases "try_bind_server_port ev c s4")
          case None
          with assms unf1 cok te tok show thesis
            by simp
        next
          case (Some bres)
          obtain br s5 where bres: "bres = (br, s5)"
            by (cases bres)
          show thesis
          proof (cases br)
            case (Inl e)
            with assms unf1 cok te tok Some bres have "s' = s5" "r = Inl e"
              by simp_all
            with Some bres Inl show thesis
              by (intro bind [OF p' co' te', of e]) (simp_all add: c_def)
          next
            case bok: (Inr u3)
            from Some bres bok have b': "try_bind_server_port ev (next_client s1) s4 = Some (Inr (), s5)"
              by (simp add: c_def)
            show thesis
            proof (cases "is_int (bind_port_now s5)")
              case False
              with assms unf1 cok te tok Some bres bok have "s' = s5" "r = Inl TypeError"
                by simp_all
              with b' False show thesis
                by (intro format [OF p' co' te']) simp_all
            next
              case isint: True
            from assms unf1 cok te tok Some bres bok isint
            have fin: "(let s6 = s5\<lparr>thread := Some c, stop := False\<rparr> in
                        case thread_outcome ev of
                          StartFails \<Rightarrow> Some (Inl TypeError, s6\<lparr>stop := True\<rparr>)
                        | Interrupted \<Rightarrow>
                            Some (Inl KeyboardInterrupt,
                                  s6\<lparr>events := events s6 @ [ThreadStart c], stop := True\<rparr>)
                        | Started \<Rightarrow>
                            (let s7 = s6\<lparr>events := events s6 @ [ThreadStart c]\<rparr> in
                             if daemon then Some (Inr (), s7)
                             else
                               (case reverse_forward_tunnel (accepts ev) c cb s7 of
                                  None \<Rightarrow> None
                                | Some s8 \<Rightarrow> Some (Inr (), s8)))) = Some (r, s')"
              by simp
            show thesis
            proof (rule thread [OF p' co' te' b' isint])
              show "(thread_outcome ev = StartFails \<and> r = Inl TypeError \<and>
                  s' = s5\<lparr>thread := Some (next_client s1), stop := True\<rparr>) \<or>
               (thread_outcome ev = Interrupted \<and> r = Inl KeyboardInterrupt \<and>
                  s' = s5\<lparr>thread := Some (next_client s1),
                          events := events s5 @ [ThreadStart (next_client s1)], stop := True\<rparr>) \<or>
               (thread_outcome ev = Started \<and> daemon \<and> r = Inr () \<and>
                  s' = s5\<lparr>thread := Some (next_client s1), stop := False,
                          events := events s5 @ [ThreadStart (next_client s1)]\<rparr>) \<or>
               (thread_outcome ev = Started \<and> \<not> daemon \<and> r = Inr () \<and>
                  reverse_forward_tunnel (accepts ev) (next_client s1) cb
                    (s5\<lparr>thread := Some (next_client s1), stop := False,
                         events := events s5 @ [ThreadStart (next_client s1)]\<rparr>) = Some s')"
              proof (cases "thread_outcome ev")
                case Started
                with fin show ?thesis
                  by (cases daemon) (auto simp: Let_def c_def split: option.splits)
              next
                case StartFails
                with fin show ?thesis
                  by (auto simp: Let_def c_def)
              next
                case Interrupted
                with fin show ?thesis
                  by (auto simp: Let_def c_def)
              qed
            qed
            qed
          qed
        qed
      qed
    qed
  qed
qed

section \<open>A failing create\<close>

lemma after_connect:
  assumes "parse_options ev s = (Inr (srv, rmt), s1)"
    and "connect_to_server ev srv
         (client_setter (next_client s1)
            (s1\<lparr>events := events s1 @ [NewClient (next_client s1)],
                 next_client := Suc (next_client s1)\<rparr>)) = (cr, s3)"
  shows "client_list s3 = client_list s @ [next_client s] \<and>
     client_curr s3 = client_curr s + 1 \<and> client_extra s3 = client_extra s \<and>
     stop s3 = stop s \<and> bind_port_now s3 = bind_port_now s \<and>
     filter is_bind (events s3) = filter is_bind (events s) \<and>
     filter is_close (events s3) = filter is_close (events s) \<and>
     cr \<noteq> Inl ValueError"
  using parse_options_frame [OF assms(1)] connect_to_server_frame [OF assms(2)]
  by (simp add: client_setter_def)

lemma after_test:
  assumes "parse_options ev s = (Inr (srv, rmt), s1)"
    and "connect_to_server ev srv
         (client_setter (next_client s1)
            (s1\<lparr>events := events s1 @ [NewClient (next_client s1)],
                 next_client := Suc (next_client s1)\<rparr>)) = (cr, s3)"
    and "test_remote_connectable ev rmt s3 = (tr, s4)"
  shows "client_list s4 = client_list s @ [next_client s] \<and>
     client_curr s4 = client_curr s + 1 \<and> client_extra s4 = client_extra s \<and>
     stop s4 = stop s \<and> bind_port_now s4 = bind_port_now s \<and>
     filter is_bind (events s4) = filter is_bind (events s) \<and>
     filter is_close (events s4) = filter is_close (events s) \<and>
     tr \<noteq> Inl ValueError \<and> (tr = Inr () \<longrightarrow> remote_connectable ev)"
  using after_connect [OF assms(1,2)] test_remote_connectable_frame [OF assms(3)]
  by simp

lemma after_bind:
  assumes "parse_options ev s = (Inr (srv, rmt), s1)"
    and "connect_to_server ev srv
         (client_setter (next_client s1)
            (s1\<lparr>events := events s1 @ [NewClient (next_client s1)],
                 next_client := Suc (next_client s1)\<rparr>)) = (cr, s3)"
    and "test_remote_connectable ev rmt s3 = (tr, s4)"
    and "try_bind_server_port ev t s4 = Some (br, s5)"
  shows "client_list s5 = client_list s @ [next_client s] \<and>
     client_curr s5 = client_curr s + 1 \<and> client_extra s5 = client_extra s \<and>
     stop s5 = stop s \<and>
     filter is_close (events s5) = filter is_close (events s) \<and>
     br \<noteq> Inl ValueError \<and>
     (\<exists>rn q. requests (events s5) = requests (events s) @ rn @ [q] \<and>
        (case br of
           Inl e \<Rightarrow> bind_port_now s5 = bind_port_now s \<and> request_port_forward ev q \<noteq> Accepted
         | Inr u \<Rightarrow> bind_port_now s5 = q \<and> request_port_forward ev q = Accepted))"
proof -
  note t = after_test [OF assms(1,2,3)]
  note b = try_bind_server_port_frame [OF assms(4)]
  from b obtain new q where
    n: "events s5 = events s4 @ new @ [RequestPortForward t q]"
      "(case br of
           Inl e \<Rightarrow> bind_port_now s5 = bind_port_now s4 \<and> request_port_forward ev q \<noteq> Accepted
         | Inr u \<Rightarrow> bind_port_now s5 = q \<and> request_port_forward ev q = Accepted)"
    by blast
  from t have "requests (events s4) = requests (events s)"
    by (intro requests_same) simp
  with n(1) have r: "requests (events s5) = requests (events s) @ requests new @ [q]"
    by (simp add: requests_append)
  have "\<exists>rn q. requests (events s5) = requests (events s) @ rn @ [q] \<and>
        (case br of
           Inl e \<Rightarrow> bind_port_now s5 = bind_port_now s \<and> request_port_forward ev q \<noteq> Accepted
         | Inr u \<Rightarrow> bind_port_now s5 = q \<and> request_port_forward ev q = Accepted)"
    by (rule exI [of _ "requests new"], rule exI [of _ q])
      (use r n(2) t in \<open>auto split: sum.splits\<close>)
  with t b show ?thesis
    by simp
qed





lemma create_parse_fails:
  "parse_options ev s = (Inl e, s1) \<Longrightarrow> create ev daemon cb s = Some (Inl e, s1)"
  by (simp add: create_def)

lemma create_connect_fails:
  "parse_options ev s = (Inr (srv, rmt), s1) \<Longrightarrow>
   connect_to_server ev srv
     (client_setter (next_client s1)
        (s1\<lparr>events := events s1 @ [NewClient (next_client s1)],
             next_client := Suc (next_client s1)\<rparr>)) = (Inl e, s3) \<Longrightarrow>
   create ev daemon cb s = Some (Inl e, s3)"
  by (simp add: create_def Let_def)

lemma create_test_fails:
  "parse_options ev s = (Inr (srv, rmt), s1) \<Longrightarrow>
   connect_to_server ev srv
     (client_setter (next_client s1)
        (s1\<lparr>events := events s1 @ [NewClient (next_client s1)],
             next_client := Suc (next_client s1)\<rparr>)) = (Inr (), s3) \<Longrightarrow>
   test_remote_connectable ev rmt s3 = (Inl e, s4) \<Longrightarrow>
   create ev daemon cb s = Some (Inl e, s4)"
  by (simp add: create_def Let_def)






section \<open>Calls on the example manager\<close>

lemmas eval_defs = create_def parse_options_def get_host_port_def split1_def and_then_def
  int_of_str_def strip_def is_space_def unsigned_of_str_def digit_val_def SSH_PORT_def
  client_setter_def connect_to_server_def client_def py_index_def
  test_remote_connectable_def try_bind_server_port_def bind_loop.simps Let_def
  example_state_def small_state_def granting_def rejecting_def unreachable_server_def
  unreachable_destination_def dying_peer_def remove_def client_remove_def client_count_def
  one_tunnel_def two_tunnels_def one_left_def reopened_def stranded_def peer_gone_def

lemma create_unreachable_destination:
  "create unreachable_destination True False example_state =
     Some (Inl SocketError,
       example_state\<lparr>username := Some ''root'', look_for_keys := Some True,
         client_list := [0], client_curr := 0,
         events := [NewClient 0, Connect 0 (PStr ''101.199.126.121'') 22,
                    SocketConnect (PStr ''127.0.0.1'') 7775],
         next_client := 1\<rparr>)"
  by (simp add: eval_defs)



text \<open>
  Two calls in which the binder does not raise the exhaustion error. On the range
  \<open>(10000, 10002, 10002)\<close>, where the preferred port is the upper end, a server that refuses
  every port keeps the loop running, and \<^verbatim>\<open>create\<close> does not return. On the manager
  constructed with the range \<^verbatim>\<open>('10000', '10200', '10022')\<close> of strings, the request for
  \<^verbatim>\<open>'10022'\<close> is issued with the string; when it is granted the string is stored in
  \<^verbatim>\<open>bind_port_now\<close>, and the message formatted next raises.
\<close>

lemma create_refused_from_max_never_returns:
  "create rejecting True False
     (example_state\<lparr>bind_port_min := PInt 10000, bind_port_max := PInt 10002,
                    bind_port_try := PInt 10002\<rparr>) = None"
  by (simp add: create_def parse_options_def get_host_port_def split1_def and_then_def
      int_of_str_def strip_def is_space_def unsigned_of_str_def digit_val_def SSH_PORT_def
      client_setter_def connect_to_server_def client_def py_index_def
      test_remote_connectable_def try_bind_server_port_def example_state_def granting_def
      rejecting_def Let_def bind_loop_never_ends)

lemma init_string_range:
  "init ''101.199.126.121'' (PTuple [PStr ''10000'', PStr ''10200'', PStr ''10022''])
     ''127.0.0.1:7775'' None None None =
     Inr (example_state\<lparr>bind_port_min := PStr ''10000'', bind_port_max := PStr ''10200'',
                         bind_port_try := PStr ''10022''\<rparr>)"
  by (simp add: init_def and_then_def py_index_def example_state_def)

lemma create_string_port_recorded:
  "create ((granting 0)\<lparr>request_port_forward :=
              (\<lambda>q. if q = PStr ''10022'' then Accepted else Rejected)\<rparr>) True False
     (example_state\<lparr>bind_port_min := PStr ''10000'', bind_port_max := PStr ''10200'',
                    bind_port_try := PStr ''10022''\<rparr>) =
     Some (Inl TypeError,
       example_state\<lparr>bind_port_min := PStr ''10000'', bind_port_max := PStr ''10200'',
         bind_port_try := PStr ''10022'', bind_port_now := PStr ''10022'',
         username := Some ''root'', look_for_keys := Some True,
         client_list := [0], client_curr := 0,
         events := [NewClient 0, Connect 0 (PStr ''101.199.126.121'') 22,
                    SocketConnect (PStr ''127.0.0.1'') 7775, SocketClose,
                    RequestPortForward 0 (PStr ''10022'')],
         next_client := 1\<rparr>)"
  by (simp add: eval_defs)


section \<open>The pre-flight check comes before the remote bind\<close>

text \<open>
  C5. When the plain socket connect to the destination fails, \<^verbatim>\<open>create\<close> returns to its caller
  with an error, and it has issued no remote bind request: the requests recorded after the call
  are those recorded before it.
\<close>

theorem unreachable_destination_issues_no_bind:
  assumes "\<not> remote_connectable ev"
  shows "\<exists>e s'. create ev daemon cb s = Some (Inl e, s') \<and>
           filter is_bind (events s') = filter is_bind (events s)"
proof -
  obtain pr s1 where p: "parse_options ev s = (pr, s1)"
    by (cases "parse_options ev s")
  show ?thesis
  proof (cases pr)
    case (Inl e)
    with p create_parse_fails [of ev s e s1 daemon cb] parse_options_frame [OF p]
    show ?thesis
      by simp
  next
    case (Inr pair)
    obtain srv rmt where pair: "pair = (srv, rmt)"
      by (cases pair)
    from p Inr pair have p': "parse_options ev s = (Inr (srv, rmt), s1)"
      by simp
    obtain cr s3 where co: "connect_to_server ev srv
         (client_setter (next_client s1)
            (s1\<lparr>events := events s1 @ [NewClient (next_client s1)],
                 next_client := Suc (next_client s1)\<rparr>)) = (cr, s3)"
      by (cases "connect_to_server ev srv
         (client_setter (next_client s1)
            (s1\<lparr>events := events s1 @ [NewClient (next_client s1)],
                 next_client := Suc (next_client s1)\<rparr>))")
    show ?thesis
    proof (cases cr)
      case (Inl e)
      with co have co'': "connect_to_server ev srv
         (client_setter (next_client s1)
            (s1\<lparr>events := events s1 @ [NewClient (next_client s1)],
                 next_client := Suc (next_client s1)\<rparr>)) = (Inl e, s3)"
        by simp
      from create_connect_fails [OF p' co'', of daemon cb] after_connect [OF p' co]
      show ?thesis
        by simp
    next
      case (Inr u)
      obtain tr s4 where te: "test_remote_connectable ev rmt s3 = (tr, s4)"
        by (cases "test_remote_connectable ev rmt s3")
      from after_test [OF p' co te] assms obtain e where e: "tr = Inl e"
        by (cases tr) auto
      from co Inr have co': "connect_to_server ev srv
         (client_setter (next_client s1)
            (s1\<lparr>events := events s1 @ [NewClient (next_client s1)],
                 next_client := Suc (next_client s1)\<rparr>)) = (Inr (), s3)"
        by simp
      from te e have te': "test_remote_connectable ev rmt s3 = (Inl e, s4)"
        by simp
      from create_test_fails [OF p' co' te', of daemon cb] after_test [OF p' co te]
      show ?thesis
        by simp
    qed
  qed
qed

section \<open>The stop flag, the bound port and the metadata\<close>

lemma new_requests_none:
  "requests (events s') = requests (events s) \<Longrightarrow> new_requests s s' = []"
  by (simp add: new_requests_def)

lemma new_requests_some:
  "requests (events s') = requests (events s) @ rn @ [q] \<Longrightarrow>
     new_requests s s' \<noteq> [] \<and> last (new_requests s s') = q"
  by (simp add: new_requests_def)

lemma create_frame:
  assumes "create ev daemon cb s = Some (r, s')"
  shows "client_extra s' = client_extra s \<and>
     (consistent s \<longrightarrow> consistent s') \<and>
     (daemon \<and> r = Inr () \<longrightarrow> \<not> stop s' \<and> client_curr s' = client_curr s + 1) \<and>
     bind_port_now s' =
       (if new_requests s s' \<noteq> [] \<and>
           request_port_forward ev (last (new_requests s s')) = Accepted
        then last (new_requests s s') else bind_port_now s) \<and>
     (r = Inr () \<longrightarrow>
        new_requests s s' \<noteq> [] \<and>
        request_port_forward ev (last (new_requests s s')) = Accepted \<and>
        is_int (bind_port_now s'))"
  using assms
proof (cases rule: create_cases)
  case (parse e)
  from parse_options_frame [OF parse(1)] have "new_requests s s' = []"
    by (intro new_requests_none) simp
  with parse_options_frame [OF parse(1)] parse(2) show ?thesis
    by (simp add: consistent_def)
next
  case (connect srv rmt s1 e)
  from after_connect [OF connect(1,2)] have "new_requests s s' = []"
    by (intro new_requests_none requests_same) simp
  with after_connect [OF connect(1,2)] connect(3) show ?thesis
    by (simp add: consistent_def)
next
  case (dest srv rmt s1 s3 e)
  from after_test [OF dest(1,2,3)] have "new_requests s s' = []"
    by (intro new_requests_none requests_same) simp
  with after_test [OF dest(1,2,3)] dest(4) show ?thesis
    by (simp add: consistent_def)
next
  case (bind srv rmt s1 s3 s4 e)
  note ab = after_bind [OF bind(1,2,3,4)]
  then obtain rn q where
    q: "requests (events s') = requests (events s) @ rn @ [q]"
      "bind_port_now s' = bind_port_now s" "request_port_forward ev q \<noteq> Accepted"
    by auto
  from new_requests_some [OF q(1)] q(2,3) ab bind(5) show ?thesis
    by (simp add: consistent_def)
next
  case (format srv rmt s1 s3 s4)
  note ab = after_bind [OF format(1,2,3,4)]
  then obtain rn q where
    q: "requests (events s') = requests (events s) @ rn @ [q]"
      "bind_port_now s' = q" "request_port_forward ev q = Accepted"
    by auto
  from new_requests_some [OF q(1)] q(2,3) ab format(6) show ?thesis
    by (simp add: consistent_def)
next
  case (thread srv rmt s1 s3 s4 s5)
  note ab = after_bind [OF thread(1,2,3,4)]
  then obtain rn q where
    q: "requests (events s5) = requests (events s) @ rn @ [q]"
      "bind_port_now s5 = q" "request_port_forward ev q = Accepted"
    by auto
  from ab have c5: "consistent s \<longrightarrow> consistent s5"
    by (simp add: consistent_def)
  have same: "requests (events s') = requests (events s5) \<and> bind_port_now s' = bind_port_now s5"
    using thread(6)
  proof (elim disjE conjE)
    assume a: "reverse_forward_tunnel (accepts ev) (next_client s1) cb
         (s5\<lparr>thread := Some (next_client s1), stop := False,
              events := events s5 @ [ThreadStart (next_client s1)]\<rparr>) = Some s'"
    from reverse_forward_tunnel_frame [OF a]
    have "filter is_bind (events s') = filter is_bind (events s5)"
      and b: "bind_port_now s' = bind_port_now s5"
      by simp_all
    from requests_same [OF this(1)] b show ?thesis
      by simp
  qed (simp_all add: requests_append)
  with q have q': "requests (events s') = requests (events s) @ rn @ [q]"
    "bind_port_now s' = q"
    by simp_all
  note nr = new_requests_some [OF q'(1)]
  from thread(6) have rest: "client_extra s' = client_extra s \<and>
     (consistent s \<longrightarrow> consistent s') \<and>
     (daemon \<and> r = Inr () \<longrightarrow> \<not> stop s' \<and> client_curr s' = client_curr s + 1)"
  proof (elim disjE conjE)
    assume a: "thread_outcome ev = Started" "\<not> daemon" "r = Inr ()"
      "reverse_forward_tunnel (accepts ev) (next_client s1) cb
         (s5\<lparr>thread := Some (next_client s1), stop := False,
              events := events s5 @ [ThreadStart (next_client s1)]\<rparr>) = Some s'"
    from c5 have c6: "consistent s \<longrightarrow> consistent (s5\<lparr>thread := Some (next_client s1), stop := False,
              events := events s5 @ [ThreadStart (next_client s1)]\<rparr>)"
      by (simp add: consistent_def)
    from reverse_forward_tunnel_frame [OF a(4)] reverse_forward_tunnel_consistent [OF a(4)]
      c6 ab a(2)
    show ?thesis
      by auto
  qed (use ab in \<open>auto simp: consistent_def\<close>)
  from same thread(5) have "is_int (bind_port_now s')"
    by simp
  with rest nr q'(2) q(3) show ?thesis
    by simp
qed


lemma create_first: "create (granting 10022) True False example_state = Some (Inr (), one_tunnel)"
  by (simp add: eval_defs)

lemma create_second: "create (granting 10023) True False one_tunnel = Some (Inr (), two_tunnels)"
  by (simp add: eval_defs)

lemma remove_second: "remove two_tunnels = (Inr (), one_left)"
  by (simp add: eval_defs)

lemma create_third: "create (granting 10024) True False one_left = Some (Inr (), reopened)"
  by (simp add: eval_defs)

lemma create_blocking: "create dying_peer False False example_state = Some (Inr (), peer_gone)"
  by (simp add: eval_defs)

lemma create_stranded:
  "create unreachable_destination True False example_state = Some (Inl SocketError, stranded)"
  by (simp add: eval_defs)


lemma set_bind_port_frame:
  "set_bind_port port s = (r, s1) \<Longrightarrow>
     stop s1 = stop s \<and> bind_port_now s1 = bind_port_now s \<and>
     client_extra s1 = client_extra s \<and> client_list s1 = client_list s \<and>
     client_curr s1 = client_curr s"
  by (cases port)
    (auto simp: set_bind_port_def and_then_def py_index_def split: sum.splits if_splits)

text \<open>
  C4, as the code has it. The stop flag is one attribute of the manager, shared by all its
  Sessions. Once it is true, \<^verbatim>\<open>remove\<close>, \<^verbatim>\<open>set_bind_port\<close> and the acceptor loop leave it
  true (the relay only reads it); \<^verbatim>\<open>create\<close> alone resets it, and a detached \<^verbatim>\<open>create\<close>
  that succeeds always leaves it false.
\<close>

theorem stop_flag_reset_only_by_create:
  assumes "run_op x s = Some (r, s')"
  shows "(stop s \<and> \<not> is_create x \<longrightarrow> stop s') \<and>
     (\<forall>ev cb. x = Create ev True cb \<and> r = Inr () \<longrightarrow> \<not> stop s')"
proof (cases x)
  case (Create ev daemon cb)
  with assms have "create ev daemon cb s = Some (r, s')"
    by simp
  from create_frame [OF this] Create show ?thesis
    by simp
next
  case Remove
  with assms remove_frame [of s r s'] show ?thesis
    by simp
next
  case (SetBindPort port)
  with assms set_bind_port_frame [of port s r s'] show ?thesis
    by simp
next
  case (AcceptorRound a t cb)
  with assms acceptor_round_frame [of a t cb s "fst (acceptor_round a t cb s)" s']
  show ?thesis
    by auto
qed

text \<open>
  C6, as the code has it. \<^verbatim>\<open>bind_port_now\<close> is one attribute of the manager, not of a
  Session. \<^verbatim>\<open>remove\<close>, \<^verbatim>\<open>set_bind_port\<close> and the acceptor loop never change it. A
  \<^verbatim>\<open>create\<close> changes it exactly when the last remote bind request it issued was accepted,
  to the port of that request, whatever Sessions are on the stack; otherwise it leaves it as it
  was. After a \<^verbatim>\<open>create\<close> that returns normally it is the port of the request accepted in
  that call.
\<close>

theorem bind_port_now_set_only_by_binder:
  assumes "run_op x s = Some (r, s')"
  shows "(\<not> is_create x \<longrightarrow> bind_port_now s' = bind_port_now s) \<and>
     (\<forall>ev daemon cb. x = Create ev daemon cb \<longrightarrow>
        bind_port_now s' =
          (if new_requests s s' \<noteq> [] \<and>
              request_port_forward ev (last (new_requests s s')) = Accepted
           then last (new_requests s s') else bind_port_now s) \<and>
        (r = Inr () \<longrightarrow>
           new_requests s s' \<noteq> [] \<and>
           request_port_forward ev (last (new_requests s s')) = Accepted \<and>
           bind_port_now s' = last (new_requests s s')))"
proof (cases x)
  case (Create ev daemon cb)
  with assms have "create ev daemon cb s = Some (r, s')"
    by simp
  from create_frame [OF this] Create show ?thesis
    by simp
next
  case Remove
  with assms remove_frame [of s r s'] show ?thesis
    by simp
next
  case (SetBindPort port)
  with assms set_bind_port_frame [of port s r s'] show ?thesis
    by simp
next
  case (AcceptorRound a t cb)
  with assms acceptor_round_frame [of a t cb s "fst (acceptor_round a t cb s)" s']
  show ?thesis
    by auto
qed

lemma run_op_consistent:
  assumes "run_op x s = Some (r, s')" and "consistent s"
  shows "consistent s'"
proof (cases x)
  case (Create ev daemon cb)
  with assms have "create ev daemon cb s = Some (r, s')"
    by simp
  from create_frame [OF this] assms(2) show ?thesis
    by simp
next
  case Remove
  with assms remove_consistent [of s r s'] show ?thesis
    by simp
next
  case (SetBindPort port)
  with assms set_bind_port_frame [of port s r s'] show ?thesis
    by (simp add: consistent_def)
next
  case (AcceptorRound a t cb)
  with assms acceptor_round_consistent [of a t cb s "fst (acceptor_round a t cb s)" s']
  show ?thesis
    by auto
qed

lemma run_ops_consistent:
  "run_ops xs s = Some s' \<Longrightarrow> consistent s \<Longrightarrow> consistent s'"
proof (induction xs arbitrary: s)
  case Nil
  then show ?case by simp
next
  case (Cons x xs)
  from Cons.prems(1) obtain r s1 where
    x: "run_op x s = Some (r, s1)" and xs: "run_ops xs s1 = Some s'"
    by (auto split: option.splits)
  from Cons.IH [OF xs run_op_consistent [OF x Cons.prems(2)]] show ?case .
qed

lemma init_consistent: "init srv bp rmt u pw kf = Inr s0 \<Longrightarrow> consistent s0"
  by (auto simp: init_def and_then_def consistent_def Let_def split: if_splits sum.splits)

lemma consistent_metadata:
  "consistent s \<Longrightarrow>
     status_file s = (if client_curr s = - 1 then Inr None else Inl IndexError) \<and>
     client_extra_get s = (if client_curr s = - 1 then Inr None else Inl IndexError)"
  by (simp add: consistent_def status_file_def client_extra_get_def py_index_def and_then_def)

text \<open>
  C10, as the code has it. On a manager driven from its constructor by \<^verbatim>\<open>create\<close>,
  \<^verbatim>\<open>remove\<close>, \<^verbatim>\<open>set_bind_port\<close> and acceptor rounds, \<^verbatim>\<open>_client_extra\<close> stays empty:
  \<^verbatim>\<open>status_file\<close> and \<^verbatim>\<open>client_extra\<close> return \<^verbatim>\<open>None\<close> exactly while \<^verbatim>\<open>_client_curr\<close> is
  \<open>-1\<close> and raise \<^verbatim>\<open>IndexError\<close> otherwise, and they raise \<^verbatim>\<open>IndexError\<close> after every
  successful detached \<^verbatim>\<open>create\<close>.
\<close>

theorem metadata_properties_after_calls:
  assumes "init srv bp rmt u pw kf = Inr s0" and "run_ops xs s0 = Some s"
  shows "(client_curr s = - 1 \<longrightarrow> status_file s = Inr None \<and> client_extra_get s = Inr None) \<and>
     (client_curr s \<noteq> - 1 \<longrightarrow>
        status_file s = Inl IndexError \<and> client_extra_get s = Inl IndexError) \<and>
     (\<forall>ev cb s'. create ev True cb s = Some (Inr (), s') \<longrightarrow>
        status_file s' = Inl IndexError \<and> client_extra_get s' = Inl IndexError)"
proof -
  have c: "consistent s"
    using run_ops_consistent [OF assms(2) init_consistent [OF assms(1)]] .
  have "status_file s' = Inl IndexError \<and> client_extra_get s' = Inl IndexError"
    if cr: "create ev True cb s = Some (Inr (), s')" for ev cb s'
  proof -
    from create_frame [OF cr] c have c': "consistent s'" and n: "client_curr s' = client_curr s + 1"
      by simp_all
    from c have "- 1 \<le> client_curr s"
      by (simp add: consistent_def)
    with n have "client_curr s' \<noteq> - 1"
      by simp
    with consistent_metadata [OF c'] show ?thesis
      by simp
  qed
  with consistent_metadata [OF c] show ?thesis
    by simp
qed


lemma init_example:
  "init ''101.199.126.121'' (PTuple [PInt 10000, PInt 10200, PInt 10022]) ''127.0.0.1:7775''
     None None None = Inr example_state"
  by (simp add: init_def and_then_def py_index_def example_state_def)



theorem unreachable_destination_issues_no_bind_witness:
  "\<not> remote_connectable unreachable_destination \<and>
   (\<exists>e s'. create unreachable_destination True False example_state = Some (Inl e, s') \<and>
      filter is_bind (events s') = filter is_bind (events example_state))"
proof -
  have u: "\<not> remote_connectable unreachable_destination"
    by (simp add: unreachable_destination_def granting_def)
  from u unreachable_destination_issues_no_bind [OF u, of True False example_state]
  show ?thesis
    by (rule conjI)
qed

theorem stop_flag_reset_only_by_create_witness:
  "run_op Remove one_left =
     Some (Inr (), one_left\<lparr>client_list := [], client_curr := - 1,
                            events := events one_left @ [ClientClose 0]\<rparr>) \<and>
   stop one_left \<and> \<not> is_create Remove \<and>
   stop (one_left\<lparr>client_list := [], client_curr := - 1,
                  events := events one_left @ [ClientClose 0]\<rparr>) \<and>
   run_op (Create (granting 10022) True False) example_state = Some (Inr (), one_tunnel) \<and>
   \<not> stop one_tunnel"
proof -
  have r: "run_op Remove one_left =
     Some (Inr (), one_left\<lparr>client_list := [], client_curr := - 1,
                            events := events one_left @ [ClientClose 0]\<rparr>)"
    by (simp add: eval_defs)
  have s: "stop one_left"
    by (simp add: eval_defs)
  have c: "run_op (Create (granting 10022) True False) example_state = Some (Inr (), one_tunnel)"
    by (simp add: create_first)
  from stop_flag_reset_only_by_create [OF r] s
  have 1: "stop (one_left\<lparr>client_list := [], client_curr := - 1,
                  events := events one_left @ [ClientClose 0]\<rparr>)"
    by simp
  from stop_flag_reset_only_by_create [OF c] have 2: "\<not> stop one_tunnel"
    by blast
  from r s 1 c 2 show ?thesis
    by simp
qed

text \<open>C4 as stated fails: with two tunnels open, \<^verbatim>\<open>remove\<close> sets the flag and pops the second;
  the first Session is still on the stack when the next \<^verbatim>\<open>create\<close> resets the flag.\<close>

theorem stop_flag_never_reset_counterexample:
  "run_ops [Create (granting 10022) True False, Create (granting 10023) True False, Remove]
     example_state = Some one_left \<and>
   stop one_left \<and> client_list one_left = [0] \<and>
   run_op (Create (granting 10024) True False) one_left = Some (Inr (), reopened) \<and>
   \<not> stop reopened \<and> client_list reopened = [0, 2]"
  by (simp add: create_first create_second remove_second create_third)
    (simp add: one_left_def reopened_def two_tunnels_def one_tunnel_def)

theorem bind_port_now_set_only_by_binder_witness:
  "run_op Remove two_tunnels = Some (Inr (), one_left) \<and> \<not> is_create Remove \<and>
   bind_port_now one_left = bind_port_now two_tunnels \<and>
   run_op (Create (granting 10023) True False) one_tunnel = Some (Inr (), two_tunnels) \<and>
   new_requests one_tunnel two_tunnels = [PInt 10022, PInt 10023] \<and>
   request_port_forward (granting 10023) (PInt 10023) = Accepted \<and>
   bind_port_now two_tunnels = PInt 10023 \<and>
   run_op (Create unreachable_destination True False) example_state =
     Some (Inl SocketError, stranded) \<and>
   new_requests example_state stranded = [] \<and>
   bind_port_now stranded = bind_port_now example_state"
proof -
  have r: "run_op Remove two_tunnels = Some (Inr (), one_left)"
    by (simp add: remove_second)
  have c: "run_op (Create (granting 10023) True False) one_tunnel = Some (Inr (), two_tunnels)"
    by (simp add: create_second)
  have f: "run_op (Create unreachable_destination True False) example_state =
     Some (Inl SocketError, stranded)"
    by (simp add: create_stranded)
  have n: "new_requests one_tunnel two_tunnels = [PInt 10022, PInt 10023]"
    by (simp add: new_requests_def two_tunnels_def one_tunnel_def example_state_def)
  have a: "request_port_forward (granting 10023) (PInt 10023) = Accepted"
    by (simp add: granting_def)
  have m: "new_requests example_state stranded = []"
    by (simp add: new_requests_def stranded_def example_state_def)
  from bind_port_now_set_only_by_binder [OF r]
  have 1: "bind_port_now one_left = bind_port_now two_tunnels"
    by simp
  from bind_port_now_set_only_by_binder [OF c]
  have "bind_port_now two_tunnels =
      (if new_requests one_tunnel two_tunnels \<noteq> [] \<and>
          request_port_forward (granting 10023) (last (new_requests one_tunnel two_tunnels)) =
            Accepted
       then last (new_requests one_tunnel two_tunnels) else bind_port_now one_tunnel)"
    by blast
  with n a have 2: "bind_port_now two_tunnels = PInt 10023"
    by simp
  from bind_port_now_set_only_by_binder [OF f]
  have "bind_port_now stranded =
      (if new_requests example_state stranded \<noteq> [] \<and>
          request_port_forward unreachable_destination
            (last (new_requests example_state stranded)) = Accepted
       then last (new_requests example_state stranded) else bind_port_now example_state)"
    by blast
  with m have 3: "bind_port_now stranded = bind_port_now example_state"
    by simp
  from r 1 c n a 2 f m 3 show ?thesis
    by simp
qed

text \<open>C6 as stated fails: the first Session was bound to \<open>10022\<close> and is still on the stack
  when the second \<^verbatim>\<open>create\<close> records \<open>10023\<close>.\<close>

theorem bound_port_changes_counterexample:
  "run_ops [Create (granting 10022) True False] example_state = Some one_tunnel \<and>
   client_list one_tunnel = [0] \<and> bind_port_now one_tunnel = PInt 10022 \<and>
   run_op (Create (granting 10023) True False) one_tunnel = Some (Inr (), two_tunnels) \<and>
   client_list two_tunnels = [0, 1] \<and> bind_port_now two_tunnels = PInt 10023"
  by (simp add: create_first create_second) (simp add: two_tunnels_def one_tunnel_def)

theorem metadata_properties_after_calls_witness:
  "init ''101.199.126.121'' (PTuple [PInt 10000, PInt 10200, PInt 10022]) ''127.0.0.1:7775''
     None None None = Inr example_state \<and>
   run_ops [] example_state = Some example_state \<and>
   client_curr example_state = - 1 \<and>
   status_file example_state = Inr None \<and> client_extra_get example_state = Inr None \<and>
   run_ops [Create (granting 10022) True False] example_state = Some one_tunnel \<and>
   client_curr one_tunnel \<noteq> - 1 \<and>
   status_file one_tunnel = Inl IndexError \<and> client_extra_get one_tunnel = Inl IndexError \<and>
   create (granting 10023) True False one_tunnel = Some (Inr (), two_tunnels) \<and>
   status_file two_tunnels = Inl IndexError \<and> client_extra_get two_tunnels = Inl IndexError"
proof -
  note i = init_example
  have r0: "run_ops [] example_state = Some example_state"
    by simp
  have r1: "run_ops [Create (granting 10022) True False] example_state = Some one_tunnel"
    by (simp add: create_first)
  have c0: "client_curr example_state = - 1"
    by (simp add: example_state_def)
  have c1: "client_curr one_tunnel \<noteq> - 1"
    by (simp add: one_tunnel_def)
  note c2 = create_second
  from metadata_properties_after_calls [OF i r0] c0
  have 0: "status_file example_state = Inr None \<and> client_extra_get example_state = Inr None"
    by blast
  from metadata_properties_after_calls [OF i r1] c1 c2
  have 1: "status_file one_tunnel = Inl IndexError \<and> client_extra_get one_tunnel = Inl IndexError"
    and 2: "status_file two_tunnels = Inl IndexError \<and> client_extra_get two_tunnels = Inl IndexError"
    by blast+
  from i r0 c0 0 r1 c1 1 c2 2 show ?thesis
    by simp
qed

text \<open>C10 as stated fails for a blocking \<^verbatim>\<open>create\<close>: it joins the acceptor, the acceptor
  finds the peer dead and calls \<^verbatim>\<open>remove\<close>, and when \<^verbatim>\<open>create\<close> returns normally the stack
  is empty again, so both properties return \<^verbatim>\<open>None\<close>.\<close>

theorem blocking_create_metadata_counterexample:
  "init ''101.199.126.121'' (PTuple [PInt 10000, PInt 10200, PInt 10022]) ''127.0.0.1:7775''
     None None None = Inr example_state \<and>
   create dying_peer False False example_state = Some (Inr (), peer_gone) \<and>
   status_file peer_gone = Inr None \<and> client_extra_get peer_gone = Inr None"
  by (simp add: init_example create_blocking)
    (simp add: status_file_def client_extra_get_def peer_gone_def)

end
